theory Spec2Isabelle
  imports Complex_Main
begin

section \<open>JavaScript numbers\<close>

text \<open>
  The engines compute on JavaScript numbers. Finite values are idealised as reals; the
  three non-finite values that the code can produce (by dividing by zero, by reading past
  the end of an array, or by starting a minimum search at \<open>Infinity\<close>) are kept as
  constructors of their own, with the arithmetic, comparison and \<open>Math\<close> functions of
  the language on them. Signed zeros and overflow are not modelled: a zero divisor is
  taken to be \<open>+0\<close>.
\<close>

datatype jsnum = Num real | PosInf | NegInf | NaN

fun js_neg :: "jsnum \<Rightarrow> jsnum" where
  "js_neg (Num a) = Num (- a)"
| "js_neg PosInf = NegInf"
| "js_neg NegInf = PosInf"
| "js_neg NaN = NaN"

fun js_add :: "jsnum \<Rightarrow> jsnum \<Rightarrow> jsnum" where
  "js_add (Num a) (Num b) = Num (a + b)"
| "js_add NaN _ = NaN"
| "js_add _ NaN = NaN"
| "js_add PosInf NegInf = NaN"
| "js_add NegInf PosInf = NaN"
| "js_add PosInf _ = PosInf"
| "js_add NegInf _ = NegInf"
| "js_add _ PosInf = PosInf"
| "js_add _ NegInf = NegInf"

definition js_sub :: "jsnum \<Rightarrow> jsnum \<Rightarrow> jsnum" where
  "js_sub a b = js_add a (js_neg b)"

fun js_mul :: "jsnum \<Rightarrow> jsnum \<Rightarrow> jsnum" where
  "js_mul (Num a) (Num b) = Num (a * b)"
| "js_mul NaN _ = NaN"
| "js_mul _ NaN = NaN"
| "js_mul (Num a) j = (if a = 0 then NaN else if 0 < a then j else js_neg j)"
| "js_mul j (Num b) = (if b = 0 then NaN else if 0 < b then j else js_neg j)"
| "js_mul PosInf j = j"
| "js_mul NegInf j = js_neg j"

fun js_div :: "jsnum \<Rightarrow> jsnum \<Rightarrow> jsnum" where
  "js_div (Num a) (Num b) =
     (if b \<noteq> 0 then Num (a / b)
      else if 0 < a then PosInf else if a < 0 then NegInf else NaN)"
| "js_div NaN _ = NaN"
| "js_div _ NaN = NaN"
| "js_div (Num a) _ = Num 0"
| "js_div PosInf (Num b) = (if 0 \<le> b then PosInf else NegInf)"
| "js_div NegInf (Num b) = (if 0 \<le> b then NegInf else PosInf)"
| "js_div _ _ = NaN"

text \<open>\<open>a < b\<close>; every comparison with \<open>NaN\<close> is false.\<close>

fun js_lt :: "jsnum \<Rightarrow> jsnum \<Rightarrow> bool" where
  "js_lt (Num a) (Num b) = (a < b)"
| "js_lt NaN _ = False"
| "js_lt _ NaN = False"
| "js_lt _ NegInf = False"
| "js_lt PosInf _ = False"
| "js_lt NegInf _ = True"
| "js_lt _ PosInf = True"

definition js_gt :: "jsnum \<Rightarrow> jsnum \<Rightarrow> bool" where
  "js_gt a b = js_lt b a"

text \<open>\<open>Math.max\<close> and \<open>Math.min\<close> return \<open>NaN\<close> as soon as one argument is \<open>NaN\<close>.\<close>

definition Math_max :: "jsnum \<Rightarrow> jsnum \<Rightarrow> jsnum" where
  "Math_max a b = (if a = NaN \<or> b = NaN then NaN else if js_lt a b then b else a)"

definition Math_min :: "jsnum \<Rightarrow> jsnum \<Rightarrow> jsnum" where
  "Math_min a b = (if a = NaN \<or> b = NaN then NaN else if js_lt b a then b else a)"

text \<open>\<open>Math.round\<close> rounds to the nearest integer, a half towards plus infinity.\<close>

definition Math_round :: "real \<Rightarrow> real" where
  "Math_round x = of_int \<lfloor>x + 1 / 2\<rfloor>"

fun js_round :: "jsnum \<Rightarrow> jsnum" where
  "js_round (Num a) = Num (Math_round a)"
| "js_round j = j"

text \<open>\<open>Math.round(x * k) / k\<close>, the rounding to a number of decimals used for every output.\<close>

definition round_to :: "real \<Rightarrow> real \<Rightarrow> real" where
  "round_to k x = Math_round (x * k) / k"

definition js_round_to :: "real \<Rightarrow> jsnum \<Rightarrow> jsnum" where
  "js_round_to k j = js_div (js_round (js_mul j (Num k))) (Num k)"

text \<open>
  An array read \<open>xs[i]\<close> used as a number: past the end (or at a negative index) the read
  gives \<open>undefined\<close>, which arithmetic turns into \<open>NaN\<close>.
\<close>

definition js_get :: "real list \<Rightarrow> int \<Rightarrow> jsnum" where
  "js_get xs i = (if 0 \<le> i \<and> i < int (length xs) then Num (xs ! nat i) else NaN)"

section \<open>The optimizer\<close>

datatype tou = Peak | MidPeak | OffPeak

fun priceMultipliers :: "tou \<Rightarrow> real" where
  "priceMultipliers Peak = 18 / 10"
| "priceMultipliers MidPeak = 1"
| "priceMultipliers OffPeak = 6 / 10"

record optimizer =
  batteryCapacity :: real
  batteryEfficiency :: real
  gridCarbonIntensity :: real

definition EnergyOptimizer :: "real \<Rightarrow> real \<Rightarrow> optimizer" where
  "EnergyOptimizer capacity efficiency =
     \<lparr>batteryCapacity = capacity, batteryEfficiency = efficiency,
      gridCarbonIntensity = 8 / 10\<rparr>"

text \<open>
  The local variables of \<open>optimize\<close> after its four dispatch steps, before the metrics
  are derived and everything is rounded.
\<close>

record dispatch =
  effective_price :: real
  solar_used :: real
  battery_charge :: real
  excess_solar :: jsnum
  battery_discharge :: real
  grid_needed :: real

definition dispatch_steps :: "optimizer \<Rightarrow> real \<Rightarrow> real \<Rightarrow> real \<Rightarrow> real \<Rightarrow> tou \<Rightarrow> dispatch" where
  "dispatch_steps opt demandKwh solarAvailableKwh gridPrice batteryLevel tou_period =
     (let adjusted = gridPrice * priceMultipliers tou_period;
          solar = min solarAvailableKwh demandKwh;
          remainingDemand = demandKwh - solar;
          excess = solarAvailableKwh - solar;
          charge =
            (if 0 < excess
             then min excess (batteryCapacity opt - batteryLevel) * batteryEfficiency opt
             else 0);
          excess' =
            (if 0 < excess
             then js_sub (Num excess) (js_div (Num charge) (Num (batteryEfficiency opt)))
             else Num excess);
          discharge =
            (if 0 < remainingDemand \<and> 0 < batteryLevel
                \<and> (tou_period = Peak \<or> 15 / 100 < adjusted)
             then min remainingDemand batteryLevel
             else 0)
      in \<lparr>effective_price = adjusted, solar_used = solar, battery_charge = charge,
          excess_solar = excess', battery_discharge = discharge,
          grid_needed = remainingDemand - discharge\<rparr>)"

definition calculatePeakReduction :: "real \<Rightarrow> real \<Rightarrow> real \<Rightarrow> real" where
  "calculatePeakReduction demandKwh solar battery =
     (let netDemand = demandKwh - solar - battery;
          peakThreshold = 40
      in if peakThreshold < demandKwh \<and> netDemand < peakThreshold
         then ((demandKwh - netDemand) / demandKwh) * 100
         else 0)"

definition calculateGridStressReduction :: "real \<Rightarrow> real \<Rightarrow> jsnum" where
  "calculateGridStressReduction grid totalDemand =
     (let gridDependency = js_div (Num grid) (Num totalDemand)
      in js_mul (js_sub (Num 1) gridDependency) (Num 100))"

record optimization_result =
  gridKwh :: real
  solarKwh :: real
  batteryKwh :: real
  batteryCharge :: real
  excessSolar :: jsnum
  totalCost :: real
  carbonSaved :: real
  renewablePercentage :: real
  peakDemandReduction :: real
  gridStressReduction :: jsnum
  timeOfUse :: tou
  adjustedGridPrice :: real

definition optimize :: "optimizer \<Rightarrow> real \<Rightarrow> real \<Rightarrow> real \<Rightarrow> real \<Rightarrow> tou \<Rightarrow> optimization_result" where
  "optimize opt demandKwh solarAvailableKwh gridPrice batteryLevel tou_period =
     (let d = dispatch_steps opt demandKwh solarAvailableKwh gridPrice batteryLevel tou_period;
          cost = grid_needed d * effective_price d;
          carbon = (solar_used d + battery_discharge d) * gridCarbonIntensity opt;
          renewable =
            (if 0 < demandKwh
             then ((solar_used d + battery_discharge d) / demandKwh) * 100
             else 0);
          peakReduction = calculatePeakReduction demandKwh (solar_used d) (battery_discharge d);
          stressReduction = calculateGridStressReduction (grid_needed d) demandKwh
      in \<lparr>gridKwh = round_to 100 (grid_needed d),
          solarKwh = round_to 100 (solar_used d),
          batteryKwh = round_to 100 (battery_discharge d),
          batteryCharge = round_to 100 (battery_charge d),
          excessSolar = js_round_to 100 (excess_solar d),
          totalCost = round_to 100 cost,
          carbonSaved = round_to 100 carbon,
          renewablePercentage = round_to 10 renewable,
          peakDemandReduction = round_to 10 peakReduction,
          gridStressReduction = js_round_to 10 stressReduction,
          timeOfUse = tou_period,
          adjustedGridPrice = round_to 1000 (effective_price d)\<rparr>)"

subsection \<open>Day-ahead planning\<close>

record day_ahead_result = optimization_result +
  batteryLevel :: real

text \<open>
  A parameter of \<open>optimize\<close> with a default value takes the default when the argument
  is \<open>undefined\<close>, which is what an array read past the end gives.
\<close>

definition nth_or :: "'a \<Rightarrow> 'a list \<Rightarrow> nat \<Rightarrow> 'a" where
  "nth_or d xs i = (if i < length xs then xs ! i else d)"

text \<open>
  One round of the loop of \<open>optimizeDayAhead\<close>, on the results pushed so far and the
  battery level. The demand of period \<open>i\<close> exists (the loop runs over \<open>demands\<close>). The
  solar forecast of period \<open>i\<close> is read with \<open>!\<close>: \<open>optimize\<close> has no default for it
  and computes \<open>NaN\<close> outputs from a missing one, which this model leaves out, so the
  properties below are stated for forecasts that cover every period.
\<close>

definition dayAheadStep ::
  "optimizer \<Rightarrow> real list \<Rightarrow> real list \<Rightarrow> real list \<Rightarrow> tou list \<Rightarrow> nat
     \<Rightarrow> day_ahead_result list \<times> real \<Rightarrow> day_ahead_result list \<times> real" where
  "dayAheadStep opt demands solarForecasts gridPrices timeOfUseSchedule i st =
     (let level = snd st;
          r = optimize opt (demands ! i) (solarForecasts ! i) (nth_or (12 / 100) gridPrices i)
                level (nth_or MidPeak timeOfUseSchedule i);
          level' = max 0 (min (batteryCapacity opt) (level - batteryKwh r + batteryCharge r))
      in (fst st @ [optimization_result.extend r (day_ahead_result.fields (round_to 100 level'))],
          level'))"

text \<open>The loop after its first \<open>n\<close> rounds: the results and the battery level.\<close>

definition dayAheadLoop ::
  "optimizer \<Rightarrow> real list \<Rightarrow> real list \<Rightarrow> real list \<Rightarrow> tou list \<Rightarrow> real \<Rightarrow> nat
     \<Rightarrow> day_ahead_result list \<times> real" where
  "dayAheadLoop opt demands solarForecasts gridPrices timeOfUseSchedule initialBatteryLevel n =
     fold (dayAheadStep opt demands solarForecasts gridPrices timeOfUseSchedule) [0..<n]
       ([], initialBatteryLevel)"

definition optimizeDayAhead ::
  "optimizer \<Rightarrow> real list \<Rightarrow> real list \<Rightarrow> real list \<Rightarrow> tou list \<Rightarrow> real
     \<Rightarrow> day_ahead_result list" where
  "optimizeDayAhead opt demands solarForecasts gridPrices timeOfUseSchedule initialBatteryLevel =
     fst (dayAheadLoop opt demands solarForecasts gridPrices timeOfUseSchedule
            initialBatteryLevel (length demands))"

subsection \<open>Load shifting\<close>

record flexible_load =
  name :: string
  loadKwh :: real
  timeWindow :: "int list"

record shifted_load =
  shiftedName :: string
  originalHour :: "int option"
  optimalHour :: "int option"
  savings :: jsnum

record load_shifting_result =
  shiftedLoads :: "shifted_load list"
  totalSavings :: jsnum

definition calculateLoadCost :: "real \<Rightarrow> int \<Rightarrow> real list \<Rightarrow> real list \<Rightarrow> real list \<Rightarrow> jsnum" where
  "calculateLoadCost load_kwh hour demands solarForecasts gridPrices =
     (let totalDemand = js_add (js_get demands hour) (Num load_kwh);
          solarAvailable = js_get solarForecasts hour;
          gridPrice = js_get gridPrices hour;
          gridNeeded = Math_max (Num 0) (js_sub totalDemand solarAvailable)
      in js_mul gridNeeded gridPrice)"

text \<open>
  \<open>load.timeWindow[0]\<close>: \<open>None\<close> is the \<open>undefined\<close> of an empty window, and the cost
  at an undefined hour is \<open>NaN\<close>.
\<close>

definition firstHour :: "int list \<Rightarrow> int option" where
  "firstHour w = (case w of [] \<Rightarrow> None | h # _ \<Rightarrow> Some h)"

definition costAt :: "real \<Rightarrow> int option \<Rightarrow> real list \<Rightarrow> real list \<Rightarrow> real list \<Rightarrow> jsnum" where
  "costAt load_kwh h demands solarForecasts gridPrices =
     (case h of None \<Rightarrow> NaN
      | Some hour \<Rightarrow> calculateLoadCost load_kwh hour demands solarForecasts gridPrices)"

text \<open>The body of the inner \<open>forEach\<close>, on the pair \<open>(bestHour, bestCost)\<close>.\<close>

definition considerHour ::
  "real \<Rightarrow> real list \<Rightarrow> real list \<Rightarrow> real list \<Rightarrow> int \<Rightarrow> int option \<times> jsnum
     \<Rightarrow> int option \<times> jsnum" where
  "considerHour load_kwh demands solarForecasts gridPrices hour best =
     (if hour < int (length demands)
      then (let cost = calculateLoadCost load_kwh hour demands solarForecasts gridPrices
            in if js_lt cost (snd best) then (Some hour, cost) else best)
      else best)"

definition findBest ::
  "real \<Rightarrow> real list \<Rightarrow> real list \<Rightarrow> real list \<Rightarrow> int list \<Rightarrow> int option \<times> jsnum" where
  "findBest load_kwh demands solarForecasts gridPrices window =
     fold (considerHour load_kwh demands solarForecasts gridPrices) window
       (firstHour window, PosInf)"

text \<open>The body of the outer \<open>forEach\<close>: the pushed record and the unrounded savings.\<close>

definition shiftLoad ::
  "flexible_load \<Rightarrow> real list \<Rightarrow> real list \<Rightarrow> real list \<Rightarrow> shifted_load \<times> jsnum" where
  "shiftLoad load demands solarForecasts gridPrices =
     (let best = findBest (loadKwh load) demands solarForecasts gridPrices (timeWindow load);
          originalCost =
            costAt (loadKwh load) (firstHour (timeWindow load)) demands solarForecasts gridPrices;
          saved = js_sub originalCost (snd best)
      in (\<lparr>shiftedName = name load, originalHour = firstHour (timeWindow load),
           optimalHour = fst best, savings = js_round_to 100 saved\<rparr>, saved))"

definition optimizeLoadShifting ::
  "flexible_load list \<Rightarrow> real list \<Rightarrow> real list \<Rightarrow> real list \<Rightarrow> load_shifting_result" where
  "optimizeLoadShifting flexibleLoads demands solarForecasts gridPrices =
     (let shifted = map (\<lambda>load. shiftLoad load demands solarForecasts gridPrices) flexibleLoads
      in \<lparr>shiftedLoads = map fst shifted,
          totalSavings = js_round_to 100 (fold (\<lambda>s total. js_add total s) (map snd shifted) (Num 0))\<rparr>)"

subsection \<open>Real-time price response\<close>



section \<open>Samples\<close>

text \<open>
  The engines read the timestamp of a sample only through \<open>new Date(...).getDay()\<close> and
  \<open>new Date(...).getHours()\<close>: a timestamp is modelled by these two readings, the day
  of the week (0 is Sunday) and the hour of the day.
\<close>

datatype timestamp = Timestamp (getDay: nat) (getHours: nat)

record energy_data =
  timestamp :: timestamp
  kwh :: real
  temperature :: real
  irradiance :: real
  windSpeed :: real
  occupancy :: real
  solarGeneration :: "real option"

text \<open>\<open>xs.slice(-n)\<close>: the last \<open>n\<close> elements, or all of them when there are fewer.\<close>

definition lastN :: "nat \<Rightarrow> 'a list \<Rightarrow> 'a list" where
  "lastN n xs = drop (length xs - n) xs"

section \<open>The forecaster\<close>

text \<open>
  The private methods below are called by \<open>forecastNextHour\<close> only, after its check
  that there are at least 48 samples: \<open>last data\<close> exists, and the regression runs on 24
  points. The one division whose divisor can be zero on such a history is the
  coefficient of variation in \<open>calculateConfidence\<close>, which is kept as a JavaScript
  division.
\<close>

definition historicalPatternForecast :: "energy_data list \<Rightarrow> real" where
  "historicalPatternForecast data =
     (let latest = last data;
          hour = getHours (timestamp latest);
          dayOfWeek = getDay (timestamp latest);
          similarPeriods =
            filter (\<lambda>d. getHours (timestamp d) = hour \<and> getDay (timestamp d) = dayOfWeek) data
      in if length similarPeriods < 3
         then (let sameHour = filter (\<lambda>d. getHours (timestamp d) = hour) data
               in if 0 < length sameHour
                  then sum_list (map kwh sameHour) / real (length sameHour)
                  else kwh latest)
         else (let recent = lastN 10 similarPeriods;
                   weights = map (\<lambda>index. (11 / 10) ^ index) [0..<length recent];
                   weightedSum = sum_list (map2 (\<lambda>d weight. kwh d * weight) recent weights);
                   totalWeight = sum_list weights
               in weightedSum / totalWeight))"

definition trendBasedForecast :: "energy_data list \<Rightarrow> real" where
  "trendBasedForecast data =
     (let values = map kwh (lastN 24 data);
          n = length values;
          x = [0..<n];
          sumX = sum_list (map real x);
          sumY = sum_list values;
          sumXY = sum_list (map (\<lambda>i. real i * values ! i) x);
          sumXX = sum_list (map (\<lambda>i. real i * real i) x);
          slope = (real n * sumXY - sumX * sumY) / (real n * sumXX - sumX * sumX);
          intercept = (sumY - slope * sumX) / real n
      in intercept + slope * real n)"

definition weatherBasedForecast :: "energy_data list \<Rightarrow> real" where
  "weatherBasedForecast data =
     (let latest = last data;
          recent = lastN 48 data;
          similarWeather =
            filter (\<lambda>d. \<bar>temperature d - temperature latest\<bar> < 3
                        \<and> \<bar>irradiance d - irradiance latest\<bar> < 100) recent
      in if length similarWeather < 3
         then kwh latest
         else sum_list (map kwh similarWeather) / real (length similarWeather))"

definition occupancyBasedForecast :: "energy_data list \<Rightarrow> nat \<Rightarrow> bool \<Rightarrow> real" where
  "occupancyBasedForecast data hour isWeekend =
     (let nextHour = (hour + 1) mod 24;
          nextOccupancy =
            (if \<not> isWeekend \<and> 7 \<le> nextHour \<and> nextHour \<le> 19
             then min 1 (1 / 10 + 9 / 10 * sin (pi * (real nextHour - 7) / 12))
             else if isWeekend \<and> 9 \<le> nextHour \<and> nextHour \<le> 17
             then 3 / 10 + 2 / 10 * sin (pi * (real nextHour - 9) / 8)
             else 0);
          baseLoad = 25;
          occupancyEffect = nextOccupancy * 15
      in baseLoad + occupancyEffect)"

definition forecastSolarGeneration :: "energy_data list \<Rightarrow> real" where
  "forecastSolarGeneration data =
     (let latest = last data;
          nextHour = (getHours (timestamp latest) + 1) mod 24
      in if nextHour < 6 \<or> 18 < nextHour then 0
         else (let currentIrradiance = irradiance latest;
                   timeOfDayFactor = sin (pi * (real nextHour - 6) / 12);
                   persistence = currentIrradiance * (8 / 10) + 800 * timeOfDayFactor * (2 / 10);
                   predictedIrradiance =
                     (if currentIrradiance < 200 then persistence * (7 / 10) else persistence);
                   panelEfficiency = 18 / 100;
                   panelArea = 100;
                   temperatureDerating = max (7 / 10) (1 - (temperature latest - 25) * (4 / 1000))
               in (predictedIrradiance / 1000) * panelArea * panelEfficiency * temperatureDerating))"

definition calculateRecentVariability :: "energy_data list \<Rightarrow> real" where
  "calculateRecentVariability data =
     (if length data < 2 then 0
      else (let values = map kwh data;
                changes = map (\<lambda>i. \<bar>values ! i - values ! (i - 1)\<bar>) [1..<length values]
            in sum_list changes / real (length changes)))"

definition calculateWeatherConsistency :: "energy_data list \<Rightarrow> real" where
  "calculateWeatherConsistency data =
     (if length data < 6 then 1 / 2
      else (let recent6 = lastN 6 data;
                tempChanges =
                  map (\<lambda>i. \<bar>temperature (recent6 ! i) - temperature (recent6 ! (i - 1))\<bar>)
                    [1..<length recent6];
                irradianceChanges =
                  map (\<lambda>i. \<bar>irradiance (recent6 ! i) - irradiance (recent6 ! (i - 1))\<bar>)
                    [1..<length recent6];
                avgTempChange = sum_list tempChanges / real (length tempChanges);
                avgIrradianceChange = sum_list irradianceChanges / real (length irradianceChanges);
                tempConsistency = max 0 (1 - avgTempChange / 10);
                irradianceConsistency = max 0 (1 - avgIrradianceChange / 500)
            in (tempConsistency + irradianceConsistency) / 2))"

definition calculateConfidence :: "energy_data list \<Rightarrow> jsnum" where
  "calculateConfidence data =
     (let recent = lastN 48 data;
          values = map kwh recent;
          mean = sum_list values / real (length values);
          variance = sum_list (map (\<lambda>v. (v - mean) ^ 2) values) / real (length values);
          coefficientOfVariation = js_div (Num (sqrt variance)) (Num mean);
          dataCompleteness = real (length recent) / 48;
          recentVariability = calculateRecentVariability recent;
          weatherConsistency = calculateWeatherConsistency recent;
          stabilityScore = Math_max (Num 0) (js_sub (Num 1) coefficientOfVariation);
          qualityScore = dataCompleteness;
          consistencyScore = 1 - recentVariability / 100;
          weatherScore = weatherConsistency
      in js_add
           (js_add
              (js_add (js_mul stabilityScore (Num (3 / 10))) (Num (qualityScore * (2 / 10))))
              (Num (consistencyScore * (3 / 10))))
           (Num (weatherScore * (2 / 10))))"

record forecast_result =
  nextHourDemand :: real
  solarAvailable :: real
  confidence :: jsnum

text \<open>The error thrown by \<open>forecastNextHour\<close> on a history of fewer than 48 samples.\<close>

datatype forecast_error = InsufficientHistoryError

definition forecastNextHour :: "energy_data list \<Rightarrow> forecast_error + forecast_result" where
  "forecastNextHour data =
     (if length data < 48 then Inl InsufficientHistoryError
      else (let latest = last data;
                hour = getHours (timestamp latest);
                dayOfWeek = getDay (timestamp latest);
                isWeekend = (dayOfWeek = 0 \<or> dayOfWeek = 6);
                historicalForecast = historicalPatternForecast data;
                trendForecast = trendBasedForecast data;
                weatherForecast = weatherBasedForecast data;
                occupancyForecast = occupancyBasedForecast data hour isWeekend;
                demand = 35 / 100 * historicalForecast + 25 / 100 * trendForecast
                           + 25 / 100 * weatherForecast + 15 / 100 * occupancyForecast;
                solar = forecastSolarGeneration data;
                conf = calculateConfidence data
            in Inr \<lparr>nextHourDemand = max 5 demand,
                    solarAvailable = max 0 solar,
                    confidence = Math_min (Num (98 / 100)) (Math_max (Num (65 / 100)) conf)\<rparr>))"

section \<open>The anomaly detector\<close>

text \<open>The three levels \<open>'low' | 'medium' | 'high'\<close>, of a sensitivity and of a severity.\<close>

datatype level = Low | Medium | High

datatype anomaly_type = Spike | Drop | Sustained | Pattern

record anomaly_data =
  anomalyTimestamp :: timestamp
  anomalyValue :: real
  isAnomaly :: bool
  severity :: level
  anomalyType :: "anomaly_type option"
  anomalyConfidence :: "real option"

text \<open>The key \<open>`${dt.getDay()}-${dt.getHours()}`\<close> of a sample in the baseline.\<close>

definition baselineKey :: "energy_data \<Rightarrow> nat \<times> nat" where
  "baselineKey d = (getDay (timestamp d), getHours (timestamp d))"

text \<open>
  \<open>patterns\<close> is the object built by the first loop of \<open>buildHistoricalBaseline\<close>, its
  keys in the order of their insertion.
\<close>

fun addPattern :: "nat \<times> nat \<Rightarrow> real \<Rightarrow> ((nat \<times> nat) \<times> real list) list
    \<Rightarrow> ((nat \<times> nat) \<times> real list) list" where
  "addPattern k v [] = [(k, [v])]"
| "addPattern k v ((k', vs) # ps) =
     (if k = k' then (k', vs @ [v]) # ps else (k', vs) # addPattern k v ps)"

definition patterns :: "energy_data list \<Rightarrow> ((nat \<times> nat) \<times> real list) list" where
  "patterns data = fold (\<lambda>d ps. addPattern (baselineKey d) (kwh d) ps) data []"

definition median :: "real list \<Rightarrow> real" where
  "median vs = (let values = sort vs in values ! (length values div 2))"

text \<open>
  The detector holds its baseline map between calls; \<open>buildHistoricalBaseline\<close> sets the
  median of every key of the given history in it (\<open>setMedian\<close> is the body of its second
  loop) and leaves the other keys as they are.
\<close>

definition setMedian ::
  "(nat \<times> nat) \<times> real list \<Rightarrow> (nat \<times> nat \<rightharpoonup> real) \<Rightarrow> (nat \<times> nat \<rightharpoonup> real)" where
  "setMedian entry historicalBaseline = historicalBaseline(fst entry \<mapsto> median (snd entry))"

definition buildHistoricalBaseline ::
  "(nat \<times> nat \<rightharpoonup> real) \<Rightarrow> energy_data list \<Rightarrow> (nat \<times> nat \<rightharpoonup> real)" where
  "buildHistoricalBaseline historicalBaseline data =
     fold setMedian (patterns data) historicalBaseline"

fun thresholds :: "level \<Rightarrow> level \<Rightarrow> real" where
  "thresholds Low High = 2"
| "thresholds Low Medium = 25 / 10"
| "thresholds Low Low = 3"
| "thresholds Medium High = 18 / 10"
| "thresholds Medium Medium = 22 / 10"
| "thresholds Medium Low = 28 / 10"
| "thresholds High High = 15 / 10"
| "thresholds High Medium = 2"
| "thresholds High Low = 25 / 10"

text \<open>
  With an empty window the mean is \<open>0 / 0\<close>, so that the z-score is \<open>NaN\<close> and every
  comparison with it is false.
\<close>

definition detectStatisticalAnomaly :: "level \<Rightarrow> energy_data \<Rightarrow> energy_data list \<Rightarrow> anomaly_data" where
  "detectStatisticalAnomaly sensitivityLevel current window =
     (let values = map kwh window
      in if values = []
         then \<lparr>anomalyTimestamp = timestamp current, anomalyValue = kwh current,
               isAnomaly = False, severity = Low, anomalyType = Some Drop,
               anomalyConfidence = None\<rparr>
         else (let mean = sum_list values / real (length values);
                   variance = sum_list (map (\<lambda>v. (v - mean) ^ 2) values) / real (length values);
                   stdDev = sqrt variance;
                   zScore = \<bar>(kwh current - mean) / (stdDev + 1 / 1000)\<bar>;
                   threshold = thresholds sensitivityLevel
               in \<lparr>anomalyTimestamp = timestamp current, anomalyValue = kwh current,
                   isAnomaly = (threshold High < zScore \<or> threshold Medium < zScore
                                \<or> threshold Low < zScore),
                   severity = (if threshold High < zScore then High
                               else if threshold Medium < zScore then Medium
                               else Low),
                   anomalyType = Some (if mean < kwh current then Spike else Drop),
                   anomalyConfidence = None\<rparr>))"

text \<open>The record of a sub-detector that abstains.\<close>

definition notAnomalous :: "energy_data \<Rightarrow> anomaly_data" where
  "notAnomalous current =
     \<lparr>anomalyTimestamp = timestamp current, anomalyValue = kwh current, isAnomaly = False,
      severity = Low, anomalyType = None, anomalyConfidence = None\<rparr>"

text \<open>\<open>!expectedValue\<close> holds for a missing entry and for an entry that is 0.\<close>

definition detectPatternAnomaly :: "(nat \<times> nat \<rightharpoonup> real) \<Rightarrow> energy_data \<Rightarrow> anomaly_data" where
  "detectPatternAnomaly historicalBaseline current =
     (case historicalBaseline (baselineKey current) of
        None \<Rightarrow> notAnomalous current
      | Some expectedValue \<Rightarrow>
          if expectedValue = 0 then notAnomalous current
          else (let deviation = \<bar>kwh current - expectedValue\<bar> / expectedValue
                in \<lparr>anomalyTimestamp = timestamp current, anomalyValue = kwh current,
                    isAnomaly = (5 / 10 < deviation \<or> 3 / 10 < deviation \<or> 2 / 10 < deviation),
                    severity = (if 5 / 10 < deviation then High
                                else if 3 / 10 < deviation then Medium
                                else Low),
                    anomalyType = Some Pattern, anomalyConfidence = None\<rparr>))"

text \<open>The quartile reads are in range: the function is called on three samples or more.\<close>

definition calculateExpectedRange :: "energy_data list \<Rightarrow> real \<times> real" where
  "calculateExpectedRange data =
     (let values = sort (map kwh data);
          q1 = values ! (length values div 4);
          q3 = values ! (length values * 3 div 4);
          iqr = q3 - q1
      in (q1 - 15 / 10 * iqr, q3 + 15 / 10 * iqr))"

definition detectContextualAnomaly :: "energy_data \<Rightarrow> energy_data list \<Rightarrow> anomaly_data" where
  "detectContextualAnomaly current window =
     (let hour = getHours (timestamp current);
          isBusinessHour = (8 \<le> hour \<and> hour \<le> 18);
          similarConditions =
            filter (\<lambda>d. \<bar>temperature d - temperature current\<bar> < 5
                        \<and> \<bar>occupancy d - occupancy current\<bar> < 2 / 10
                        \<and> isBusinessHour
                            = (8 \<le> getHours (timestamp d) \<and> getHours (timestamp d) \<le> 18))
              window
      in if length similarConditions < 3 then notAnomalous current
         else (let expectedRange = calculateExpectedRange similarConditions;
                   isOutsideRange =
                     (kwh current < fst expectedRange \<or> snd expectedRange < kwh current);
                   deviation =
                     Math_min
                       (js_div (Num \<bar>kwh current - fst expectedRange\<bar>) (Num (fst expectedRange)))
                       (js_div (Num \<bar>kwh current - snd expectedRange\<bar>) (Num (snd expectedRange)))
               in \<lparr>anomalyTimestamp = timestamp current, anomalyValue = kwh current,
                   isAnomaly = isOutsideRange,
                   severity = (if isOutsideRange
                               then (if js_gt deviation (Num (4 / 10)) then High
                                     else if js_gt deviation (Num (25 / 100)) then Medium
                                     else Low)
                               else Low),
                   anomalyType = Some Pattern, anomalyConfidence = None\<rparr>))"

definition detectEquipmentAnomaly :: "energy_data \<Rightarrow> energy_data list \<Rightarrow> anomaly_data" where
  "detectEquipmentAnomaly current recentData =
     (if length recentData < 3 then notAnomalous current
      else (let recentValues = map kwh recentData;
                currentValue = kwh current;
                avgRecent = sum_list recentValues / real (length recentValues);
                dropThreshold = avgRecent * (4 / 10);
                spikeThreshold = avgRecent * 2;
                allHigh = list_all (\<lambda>v. avgRecent * (13 / 10) < v) (recentValues @ [currentValue]);
                allLow = list_all (\<lambda>v. v < avgRecent * (7 / 10)) (recentValues @ [currentValue])
            in if currentValue < dropThreshold
               then \<lparr>anomalyTimestamp = timestamp current, anomalyValue = kwh current,
                     isAnomaly = True, severity = High, anomalyType = Some Drop,
                     anomalyConfidence = None\<rparr>
               else if spikeThreshold < currentValue
               then \<lparr>anomalyTimestamp = timestamp current, anomalyValue = kwh current,
                     isAnomaly = True, severity = High, anomalyType = Some Spike,
                     anomalyConfidence = None\<rparr>
               else if allHigh \<or> allLow
               then \<lparr>anomalyTimestamp = timestamp current, anomalyValue = kwh current,
                     isAnomaly = True, severity = Medium, anomalyType = Some Sustained,
                     anomalyConfidence = None\<rparr>
               else notAnomalous current))"

fun getSeverityScore :: "level \<Rightarrow> nat" where
  "getSeverityScore High = 3"
| "getSeverityScore Medium = 2"
| "getSeverityScore Low = 1"

definition calculateAnomalyConfidence :: "anomaly_data list \<Rightarrow> real" where
  "calculateAnomalyConfidence anomalies =
     (if length anomalies = 0 then 0
      else (let severityScores = map (\<lambda>a. real (getSeverityScore (severity a))) anomalies;
                avgSeverity = sum_list severityScores / real (length severityScores);
                agreementFactor = real (length anomalies) / 4
            in min (98 / 100) (5 / 10 + (avgSeverity / 3) * (3 / 10) + agreementFactor * (2 / 10))))"

text \<open>
  The callback of the \<open>reduce\<close> that picks the most severe anomaly, and the \<open>reduce\<close>
  itself, which has no initial value and is called on a list that is not empty.
\<close>

definition moreSevere :: "anomaly_data \<Rightarrow> anomaly_data \<Rightarrow> anomaly_data" where
  "moreSevere prev cur =
     (if getSeverityScore (severity prev) < getSeverityScore (severity cur) then cur else prev)"

definition mostSevereOf :: "anomaly_data list \<Rightarrow> anomaly_data" where
  "mostSevereOf detectedAnomalies = foldl moreSevere (hd detectedAnomalies) (tl detectedAnomalies)"

text \<open>
  The body of the loop of \<open>detectAnomalies\<close> at index \<open>i\<close>, which is at least the window
  size and less than the length of the data.
\<close>

definition detectAt ::
  "level \<Rightarrow> (nat \<times> nat \<rightharpoonup> real) \<Rightarrow> energy_data list \<Rightarrow> nat \<Rightarrow> nat \<Rightarrow> anomaly_data" where
  "detectAt sensitivityLevel historicalBaseline data windowSize i =
     (let current = data ! i;
          window = drop (i - windowSize) (take i data);
          statisticalAnomaly = detectStatisticalAnomaly sensitivityLevel current window;
          patternAnomaly = detectPatternAnomaly historicalBaseline current;
          contextualAnomaly = detectContextualAnomaly current window;
          equipmentAnomaly = detectEquipmentAnomaly current (drop (i - 6) (take i data));
          anomalyResults = [statisticalAnomaly, patternAnomaly, contextualAnomaly, equipmentAnomaly];
          detectedAnomalies = filter isAnomaly anomalyResults
      in if 0 < length detectedAnomalies
         then (let mostSevere = mostSevereOf detectedAnomalies
               in \<lparr>anomalyTimestamp = timestamp current, anomalyValue = kwh current,
                   isAnomaly = True, severity = severity mostSevere,
                   anomalyType = anomalyType mostSevere,
                   anomalyConfidence = Some (calculateAnomalyConfidence detectedAnomalies)\<rparr>)
         else \<lparr>anomalyTimestamp = timestamp current, anomalyValue = kwh current,
               isAnomaly = False, severity = Low, anomalyType = None,
               anomalyConfidence = Some (95 / 100)\<rparr>)"

text \<open>
  \<open>detectAnomalies\<close> on a detector with the given sensitivity and baseline map: the
  records it returns and the baseline map it leaves in the detector.
\<close>

definition detectAnomalies ::
  "level \<Rightarrow> (nat \<times> nat \<rightharpoonup> real) \<Rightarrow> energy_data list \<Rightarrow> nat
     \<Rightarrow> anomaly_data list \<times> (nat \<times> nat \<rightharpoonup> real)" where
  "detectAnomalies sensitivityLevel historicalBaseline data windowSize =
     (let baseline = buildHistoricalBaseline historicalBaseline data
      in (map (detectAt sensitivityLevel baseline data windowSize)
            [max windowSize 24..<length data],
          baseline))"

text \<open>A new detector has an empty baseline map.\<close>

definition AnomalyDetector :: "nat \<times> nat \<rightharpoonup> real" where
  "AnomalyDetector = Map.empty"

record anomaly_type_counts =
  spikes :: nat
  drops :: nat
  sustained :: nat
  patternAnomalies :: nat

record anomaly_stats =
  total :: nat
  high :: nat
  medium :: nat
  low :: nat
  types :: anomaly_type_counts


section \<open>Operations that can throw\<close>









section \<open>Notions for the statements\<close>

text \<open>
  For the statements about load shifting: the hours at which demand, forecast and price
  all exist, and the cost of \<open>calculateLoadCost\<close> there as a real number.
\<close>

definition hourCost :: "real \<Rightarrow> real list \<Rightarrow> real list \<Rightarrow> real list \<Rightarrow> int \<Rightarrow> real" where
  "hourCost load_kwh demands solarForecasts gridPrices h =
     max 0 (demands ! nat h + load_kwh - solarForecasts ! nat h) * gridPrices ! nat h"

definition validHour :: "real list \<Rightarrow> real list \<Rightarrow> real list \<Rightarrow> int \<Rightarrow> bool" where
  "validHour demands solarForecasts gridPrices h =
     (0 \<le> h \<and> h < int (length demands) \<and> h < int (length solarForecasts)
      \<and> h < int (length gridPrices))"

text \<open>
  For the statements about the anomaly detector: the mean of the (up to six) samples before
  index \<open>i\<close>, which is \<open>avgRecent\<close> of the equipment sub-detector at \<open>i\<close>; a
  sub-detector's verdict that is an anomaly of high severity; and three histories of
  hourly readings that differ in their consumption only, a flat load of 1 kWh followed by
  3 kWh, a load of 9 kWh that falls to 1 kWh for six samples and then reads 3 kWh, and a
  building that reads 0 kWh throughout.
\<close>

definition trailingMean :: "energy_data list \<Rightarrow> nat \<Rightarrow> real" where
  "trailingMean data i =
     sum_list (map kwh (drop (i - 6) (take i data))) / real (length (drop (i - 6) (take i data)))"

definition flaggedHigh :: "anomaly_data \<Rightarrow> bool" where
  "flaggedHigh a = (isAnomaly a \<and> severity a = High)"

definition reading :: "real \<Rightarrow> energy_data" where
  "reading v =
     \<lparr>timestamp = Timestamp 1 12, kwh = v, temperature = 20, irradiance = 500, windSpeed = 3,
      occupancy = 1 / 2, solarGeneration = None\<rparr>"

definition spikeAfterHighLoad :: "energy_data list" where
  "spikeAfterHighLoad = replicate 42 (reading 9) @ replicate 6 (reading 1) @ [reading 3]"

definition spikeAfterFlatLoad :: "energy_data list" where
  "spikeAfterFlatLoad = replicate 24 (reading 1) @ [reading 3]"

definition idleHistory :: "energy_data list" where
  "idleHistory = replicate 25 (reading 0)"

section \<open>Rounding\<close>

lemma Math_round_err: "\<bar>Math_round x - x\<bar> \<le> 1 / 2"
  unfolding Math_round_def by linarith

lemma round_to_err:
  assumes k: "0 < k"
  shows "\<bar>round_to k x - x\<bar> \<le> 1 / (2 * k)"
proof -
  have a: "\<bar>Math_round (x * k) - x * k\<bar> \<le> 1 / 2" by (rule Math_round_err)
  have "round_to k x - x = (Math_round (x * k) - x * k) / k"
    using k by (simp add: round_to_def field_simps)
  then have "\<bar>round_to k x - x\<bar> = \<bar>Math_round (x * k) - x * k\<bar> / k"
    using k by (simp add: abs_divide)
  also have "\<dots> \<le> (1 / 2) / k"
    using a k by (intro divide_right_mono) simp_all
  finally show ?thesis by simp
qed

lemma Math_round_range:
  assumes "0 \<le> x" "x \<le> of_int n"
  shows "0 \<le> Math_round x \<and> Math_round x \<le> of_int n"
proof -
  have "0 \<le> \<lfloor>x + 1 / 2\<rfloor>" using assms(1) by simp
  moreover have "\<lfloor>x + 1 / 2\<rfloor> \<le> n"
  proof -
    have "x + 1 / 2 < of_int (n + 1)" using assms(2) by simp
    then have "\<lfloor>x + 1 / 2\<rfloor> < n + 1" by (simp only: floor_less_iff)
    then show ?thesis by simp
  qed
  ultimately show ?thesis by (simp add: Math_round_def)
qed

lemma round_to_percent:
  assumes "0 \<le> x" "x \<le> 100"
  shows "0 \<le> round_to 10 x \<and> round_to 10 x \<le> 100"
proof -
  have "0 \<le> Math_round (x * 10) \<and> Math_round (x * 10) \<le> of_int 1000"
    using assms by (intro Math_round_range) simp_all
  then show ?thesis by (simp add: round_to_def)
qed

lemma js_round_to_Num: "0 < k \<Longrightarrow> js_round_to k (Num x) = Num (round_to k x)"
  by (simp add: js_round_to_def round_to_def)

lemma js_round_to_NaN: "js_round_to k NaN = NaN"
  by (simp add: js_round_to_def)

lemma round_to_nonneg: "0 < k \<Longrightarrow> 0 \<le> x \<Longrightarrow> 0 \<le> round_to k x"
  by (simp add: round_to_def Math_round_def)

section \<open>Properties of the optimizer\<close>

lemmas optimize_eval =
  optimize_def dispatch_steps_def EnergyOptimizer_def Let_def round_to_def Math_round_def
  calculatePeakReduction_def calculateGridStressReduction_def js_round_to_def js_sub_def


lemma dispatch_balance:
  "solar_used (dispatch_steps opt d s p b t) + battery_discharge (dispatch_steps opt d s p b t)
     + grid_needed (dispatch_steps opt d s p b t) = d"
  by (simp add: dispatch_steps_def Let_def)

text \<open>
  C1. In every call of \<open>optimize\<close> the grid makes up the residual: the solar used, the
  battery discharge and the grid energy add up to the demand, exactly before the outputs
  are rounded and within three half-cents of a kWh (each of the three outputs is rounded
  to two decimals, so each is off by at most 0.005) on the returned \<open>solarKwh\<close>,
  \<open>batteryKwh\<close> and \<open>gridKwh\<close>.
\<close>

theorem optimize_energy_balance:
  "solar_used (dispatch_steps opt demand solar price level period)
     + battery_discharge (dispatch_steps opt demand solar price level period)
     + grid_needed (dispatch_steps opt demand solar price level period) = demand
   \<and> \<bar>solarKwh (optimize opt demand solar price level period)
        + batteryKwh (optimize opt demand solar price level period)
        + gridKwh (optimize opt demand solar price level period) - demand\<bar> \<le> 3 / 200"
proof -
  let ?d = "dispatch_steps opt demand solar price level period"
  have bal: "solar_used ?d + battery_discharge ?d + grid_needed ?d = demand"
    by (rule dispatch_balance)
  have e1: "\<bar>round_to 100 (solar_used ?d) - solar_used ?d\<bar> \<le> 1 / 200"
    using round_to_err [of 100 "solar_used ?d"] by simp
  have e2: "\<bar>round_to 100 (battery_discharge ?d) - battery_discharge ?d\<bar> \<le> 1 / 200"
    using round_to_err [of 100 "battery_discharge ?d"] by simp
  have e3: "\<bar>round_to 100 (grid_needed ?d) - grid_needed ?d\<bar> \<le> 1 / 200"
    using round_to_err [of 100 "grid_needed ?d"] by simp
  have "\<bar>round_to 100 (solar_used ?d) + round_to 100 (battery_discharge ?d)
          + round_to 100 (grid_needed ?d) - demand\<bar> \<le> 3 / 200"
    using bal e1 e2 e3 by linarith
  then show ?thesis using bal by (simp add: optimize_def Let_def)
qed

text \<open>
  C2. In every call of \<open>optimize\<close> (battery levels are not negative) the battery
  discharges to cover the demand that remains after solar if and only if the period is
  peak or the effective price (grid price times the multiplier of the period) exceeds
  0.15, and the discharged amount is \<open>min(remaining_demand, battery_level)\<close>, which is 0
  when no demand remains or the battery is empty; without that condition the discharge is
  0. The guard of the code (demand remains and the level is positive) is stated as well,
  for every level. The two examples come out as stated: demand 50, solar 10, battery 25,
  price 0.12, off-peak gives solar 10, no discharge, grid 40 and cost 2.88; demand 50,
  solar 30, battery 25, price 0.12, peak gives solar 30, discharge 20, grid 0 and cost 0.
\<close>

theorem optimize_battery_dispatch:
  fixes opt demand solar price level period
  defines "d \<equiv> dispatch_steps opt demand solar price level period"
  defines "remaining \<equiv> demand - min solar demand"
  defines "economical \<equiv> (period = Peak \<or> 15 / 100 < price * priceMultipliers period)"
  shows "solar_used d = min solar demand
    \<and> battery_discharge d =
        (if 0 < remaining \<and> 0 < level \<and> economical then min remaining level else 0)
    \<and> (0 < battery_discharge d) = (0 < remaining \<and> 0 < level \<and> economical)
    \<and> (0 \<le> level \<longrightarrow>
         battery_discharge d = (if economical then min remaining level else 0))
    \<and> grid_needed d = remaining - battery_discharge d
    \<and> batteryKwh (optimize opt demand solar price level period)
         = round_to 100 (battery_discharge d)
    \<and> optimization_result.truncate
         (optimize (EnergyOptimizer 50 (95 / 100)) 50 10 (12 / 100) 25 OffPeak)
       = \<lparr>gridKwh = 40, solarKwh = 10, batteryKwh = 0, batteryCharge = 0,
          excessSolar = Num 0, totalCost = 288 / 100, carbonSaved = 8,
          renewablePercentage = 20, peakDemandReduction = 0,
          gridStressReduction = Num 20, timeOfUse = OffPeak,
          adjustedGridPrice = 72 / 1000\<rparr>
    \<and> optimization_result.truncate
         (optimize (EnergyOptimizer 50 (95 / 100)) 50 30 (12 / 100) 25 Peak)
       = \<lparr>gridKwh = 0, solarKwh = 30, batteryKwh = 20, batteryCharge = 0,
          excessSolar = Num 0, totalCost = 0, carbonSaved = 40,
          renewablePercentage = 100, peakDemandReduction = 100,
          gridStressReduction = Num 100, timeOfUse = Peak,
          adjustedGridPrice = 216 / 1000\<rparr>"
proof -
  have a: "solar_used d = min solar demand"
    by (simp add: d_def dispatch_steps_def Let_def)
  have b: "battery_discharge d =
        (if 0 < remaining \<and> 0 < level \<and> economical then min remaining level else 0)"
    by (auto simp add: d_def remaining_def economical_def dispatch_steps_def Let_def)
  have c: "(0 < battery_discharge d) = (0 < remaining \<and> 0 < level \<and> economical)"
    unfolding b by auto
  have rem: "0 \<le> remaining" by (simp add: remaining_def)
  have e: "0 \<le> level \<longrightarrow>
         battery_discharge d = (if economical then min remaining level else 0)"
    unfolding b using rem by auto
  have f: "grid_needed d = remaining - battery_discharge d"
    by (simp add: d_def remaining_def dispatch_steps_def Let_def)
  have g: "batteryKwh (optimize opt demand solar price level period)
         = round_to 100 (battery_discharge d)"
    by (simp add: d_def optimize_def Let_def)
  have h: "optimization_result.truncate
         (optimize (EnergyOptimizer 50 (95 / 100)) 50 10 (12 / 100) 25 OffPeak)
       = \<lparr>gridKwh = 40, solarKwh = 10, batteryKwh = 0, batteryCharge = 0,
          excessSolar = Num 0, totalCost = 288 / 100, carbonSaved = 8,
          renewablePercentage = 20, peakDemandReduction = 0,
          gridStressReduction = Num 20, timeOfUse = OffPeak,
          adjustedGridPrice = 72 / 1000\<rparr>"
    by (simp add: optimize_eval optimization_result.truncate_def)
  have i: "optimization_result.truncate
         (optimize (EnergyOptimizer 50 (95 / 100)) 50 30 (12 / 100) 25 Peak)
       = \<lparr>gridKwh = 0, solarKwh = 30, batteryKwh = 20, batteryCharge = 0,
          excessSolar = Num 0, totalCost = 0, carbonSaved = 40,
          renewablePercentage = 100, peakDemandReduction = 100,
          gridStressReduction = Num 100, timeOfUse = Peak,
          adjustedGridPrice = 216 / 1000\<rparr>"
    by (simp add: optimize_eval optimization_result.truncate_def)
  from a b c e f g h i show ?thesis by blast
qed

theorem optimize_battery_dispatch_witness:
  "(0::real) \<le> 25
   \<and> battery_discharge (dispatch_steps (EnergyOptimizer 50 (95 / 100)) 50 30 (12 / 100) 25 Peak)
       = 20
   \<and> battery_discharge (dispatch_steps (EnergyOptimizer 50 (95 / 100)) 50 10 (12 / 100) 25 OffPeak)
       = 0"
  using optimize_battery_dispatch [of "EnergyOptimizer 50 (95 / 100)" 50 30 "12 / 100" 25 Peak]
    optimize_battery_dispatch [of "EnergyOptimizer 50 (95 / 100)" 50 10 "12 / 100" 25 OffPeak]
  by simp

text \<open>
  C10. In a single call of \<open>optimize\<close> charging and discharging exclude each other: a
  positive \<open>batteryCharge\<close> comes with \<open>batteryKwh = 0\<close> and a positive \<open>batteryKwh\<close>
  with \<open>batteryCharge = 0\<close>, since solar is in excess only when it covers the demand and
  the battery discharges only when demand remains. This holds for every input, so also
  for the non-negative ones of the claim.
\<close>

theorem charge_discharge_exclusive:
  "(0 < batteryCharge (optimize opt demand solar price level period)
      \<longrightarrow> batteryKwh (optimize opt demand solar price level period) = 0)
   \<and> (0 < batteryKwh (optimize opt demand solar price level period)
      \<longrightarrow> batteryCharge (optimize opt demand solar price level period) = 0)
   \<and> (battery_charge (dispatch_steps opt demand solar price level period) = 0
      \<or> battery_discharge (dispatch_steps opt demand solar price level period) = 0)"
proof -
  let ?d = "dispatch_steps opt demand solar price level period"
  have z: "round_to 100 0 = 0" by (simp add: round_to_def Math_round_def)
  have ex: "battery_charge ?d = 0 \<or> battery_discharge ?d = 0"
    by (auto simp add: dispatch_steps_def Let_def min_def)
  have "batteryCharge (optimize opt demand solar price level period) = 0
      \<or> batteryKwh (optimize opt demand solar price level period) = 0"
    using ex z by (auto simp add: optimize_def Let_def)
  then show ?thesis using ex by auto
qed

theorem charge_discharge_exclusive_witness:
  "0 < batteryKwh (optimize (EnergyOptimizer 50 (95 / 100)) 50 30 (12 / 100) 25 Peak)
   \<and> batteryCharge (optimize (EnergyOptimizer 50 (95 / 100)) 50 30 (12 / 100) 25 Peak) = 0
   \<and> 0 < batteryCharge (optimize (EnergyOptimizer 50 (95 / 100)) 10 30 (12 / 100) 25 Peak)
   \<and> batteryKwh (optimize (EnergyOptimizer 50 (95 / 100)) 10 30 (12 / 100) 25 Peak) = 0"
proof -
  have a: "0 < batteryKwh (optimize (EnergyOptimizer 50 (95 / 100)) 50 30 (12 / 100) 25 Peak)"
    by (simp add: optimize_eval)
  have b: "0 < batteryCharge (optimize (EnergyOptimizer 50 (95 / 100)) 10 30 (12 / 100) 25 Peak)"
    by (simp add: optimize_eval)
  show ?thesis
    using a b
      charge_discharge_exclusive [of "EnergyOptimizer 50 (95 / 100)" 50 30 "12 / 100" 25 Peak]
      charge_discharge_exclusive [of "EnergyOptimizer 50 (95 / 100)" 10 30 "12 / 100" 25 Peak]
    by blast
qed

lemma dispatch_grid_range:
  assumes "0 \<le> solar" "0 \<le> level" "0 \<le> demand"
  shows "0 \<le> grid_needed (dispatch_steps opt demand solar price level period)
    \<and> grid_needed (dispatch_steps opt demand solar price level period) \<le> demand"
  using assms by (auto simp add: dispatch_steps_def Let_def min_def)

lemma optimize_percentages_in_range:
  assumes "0 < demand" "0 \<le> solar" "0 \<le> level"
  shows "0 \<le> renewablePercentage (optimize opt demand solar price level period)
    \<and> renewablePercentage (optimize opt demand solar price level period) \<le> 100
    \<and> 0 \<le> peakDemandReduction (optimize opt demand solar price level period)
    \<and> peakDemandReduction (optimize opt demand solar price level period) \<le> 100
    \<and> (\<exists>g. gridStressReduction (optimize opt demand solar price level period) = Num g
          \<and> 0 \<le> g \<and> g \<le> 100)"
proof -
  let ?d = "dispatch_steps opt demand solar price level period"
  let ?g = "grid_needed ?d"
  have bal: "solar_used ?d + battery_discharge ?d = demand - ?g"
    by (simp add: dispatch_steps_def Let_def)
  have g: "0 \<le> ?g" "?g \<le> demand"
    using dispatch_grid_range [of solar level demand opt price period] assms by simp_all
  have frac: "0 \<le> (demand - ?g) / demand * 100" "(demand - ?g) / demand * 100 \<le> 100"
    using g assms(1) by (simp_all add: field_simps)
  have ren: "0 \<le> round_to 10 ((demand - ?g) / demand * 100)
      \<and> round_to 10 ((demand - ?g) / demand * 100) \<le> 100"
    using frac by (rule round_to_percent)
  have z: "round_to 10 0 = 0" by (simp add: round_to_def Math_round_def)
  have pk: "calculatePeakReduction demand (solar_used ?d) (battery_discharge ?d)
      = (if 40 < demand \<and> ?g < 40 then (demand - ?g) / demand * 100 else 0)"
    using bal by (simp add: calculatePeakReduction_def Let_def algebra_simps)
  have frac2: "(1 - ?g / demand) * 100 = (demand - ?g) / demand * 100"
    using assms(1) by (simp add: field_simps)
  have gs: "calculateGridStressReduction ?g demand = Num ((demand - ?g) / demand * 100)"
    using assms(1) frac2 by (simp add: calculateGridStressReduction_def js_sub_def)
  have gs': "js_round_to 10 (Num ((demand - ?g) / demand * 100))
      = Num (round_to 10 ((demand - ?g) / demand * 100))"
    by (simp add: js_round_to_def round_to_def)
  have "renewablePercentage (optimize opt demand solar price level period)
      = round_to 10 ((solar_used ?d + battery_discharge ?d) / demand * 100)"
    using assms(1) by (simp add: optimize_def Let_def)
  then have r1: "renewablePercentage (optimize opt demand solar price level period)
      = round_to 10 ((demand - ?g) / demand * 100)"
    by (simp only: bal)
  have r2: "peakDemandReduction (optimize opt demand solar price level period)
      = round_to 10 (if 40 < demand \<and> ?g < 40 then (demand - ?g) / demand * 100 else 0)"
    using pk by (simp add: optimize_def Let_def)
  have r3: "gridStressReduction (optimize opt demand solar price level period)
      = Num (round_to 10 ((demand - ?g) / demand * 100))"
    using gs gs' by (simp add: optimize_def Let_def)
  show ?thesis
    unfolding r1 r2 r3 using ren z by auto
qed

text \<open>
  C9. The claim asks for \<open>renewable_pct\<close>, \<open>peak_reduction_pct\<close> and
  \<open>grid_stress_reduction_pct\<close> in [0, 100] with every division guarded at zero demand.
  The code guards the first two only: with demand 0, solar 0, price 0.12, battery 25 and
  mid-peak, \<open>calculateGridStressReduction\<close> divides 0 by 0 and the returned
  \<open>gridStressReduction\<close> is \<open>NaN\<close>, while \<open>renewablePercentage\<close> is 0. For a positive
  demand all three lie in [0, 100] (\<open>optimize_percentages_in_range\<close>).
\<close>

theorem optimize_zero_demand_grid_stress:
  "gridStressReduction (optimize (EnergyOptimizer 50 (95 / 100)) 0 0 (12 / 100) 25 MidPeak) = NaN
   \<and> renewablePercentage (optimize (EnergyOptimizer 50 (95 / 100)) 0 0 (12 / 100) 25 MidPeak) = 0
   \<and> peakDemandReduction (optimize (EnergyOptimizer 50 (95 / 100)) 0 0 (12 / 100) 25 MidPeak) = 0"
  by (simp add: optimize_eval)

section \<open>Properties of day-ahead planning\<close>

lemma dayAheadLoop_Suc:
  "dayAheadLoop opt ds ss ps ts b0 (Suc n)
     = dayAheadStep opt ds ss ps ts n (dayAheadLoop opt ds ss ps ts b0 n)"
  by (simp add: dayAheadLoop_def)

lemma dayAheadLoop_0: "dayAheadLoop opt ds ss ps ts b0 0 = ([], b0)"
  by (simp add: dayAheadLoop_def)

lemma dayAheadStep_snd:
  "snd (dayAheadStep opt ds ss ps ts i st)
     = max 0 (min (batteryCapacity opt)
         (snd st
          - batteryKwh (optimize opt (ds ! i) (ss ! i) (nth_or (12 / 100) ps i)
               (snd st) (nth_or MidPeak ts i))
          + batteryCharge (optimize opt (ds ! i) (ss ! i) (nth_or (12 / 100) ps i)
               (snd st) (nth_or MidPeak ts i))))"
  by (simp add: dayAheadStep_def Let_def)

lemma dayAheadLoop_length:
  "length (fst (dayAheadLoop opt ds ss ps ts b0 n)) = n"
  by (induction n) (simp_all add: dayAheadLoop_0 dayAheadLoop_Suc dayAheadStep_def Let_def)

lemma dayAheadLoop_nth:
  "k < n \<Longrightarrow> batteryLevel (fst (dayAheadLoop opt ds ss ps ts b0 n) ! k)
     = round_to 100 (snd (dayAheadLoop opt ds ss ps ts b0 (Suc k)))"
proof (induction n)
  case 0
  then show ?case by simp
next
  case (Suc n)
  show ?case
  proof (cases "k < n")
    case True
    then show ?thesis
      using Suc.IH dayAheadLoop_length [of opt ds ss ps ts b0 n]
      by (simp add: dayAheadLoop_Suc [of _ _ _ _ _ _ n] dayAheadStep_def Let_def nth_append)
  next
    case False
    with Suc.prems have "k = n" by simp
    then show ?thesis
      using dayAheadLoop_length [of opt ds ss ps ts b0 n]
      by (simp add: dayAheadLoop_Suc dayAheadStep_def Let_def nth_append
          optimization_result.extend_def day_ahead_result.fields_def)
  qed
qed

text \<open>
  C6. For every sequence of periods (a solar forecast for every demand) and every initial
  battery level within [0, capacity], the battery level threaded by \<open>optimizeDayAhead\<close>
  is within [0, capacity] after every number \<open>n\<close> of rounds, the next level is
  \<open>max(0, min(capacity, level - batteryKwh + batteryCharge))\<close> of the result of the
  period, and the \<open>batteryLevel\<close> reported for the period is that level rounded to two
  decimals.
\<close>

theorem day_ahead_battery_level_in_range:
  assumes "0 \<le> initial" "initial \<le> batteryCapacity opt"
    and "length demands \<le> length solarForecasts"
    and "n \<le> length demands"
  shows "0 \<le> snd (dayAheadLoop opt demands solarForecasts prices schedule initial n)
    \<and> snd (dayAheadLoop opt demands solarForecasts prices schedule initial n) \<le> batteryCapacity opt
    \<and> (n < length demands \<longrightarrow>
         snd (dayAheadLoop opt demands solarForecasts prices schedule initial (Suc n))
           = max 0 (min (batteryCapacity opt)
               (snd (dayAheadLoop opt demands solarForecasts prices schedule initial n)
                - batteryKwh (optimize opt (demands ! n) (solarForecasts ! n)
                     (nth_or (12 / 100) prices n)
                     (snd (dayAheadLoop opt demands solarForecasts prices schedule initial n))
                     (nth_or MidPeak schedule n))
                + batteryCharge (optimize opt (demands ! n) (solarForecasts ! n)
                     (nth_or (12 / 100) prices n)
                     (snd (dayAheadLoop opt demands solarForecasts prices schedule initial n))
                     (nth_or MidPeak schedule n))))
         \<and> batteryLevel (optimizeDayAhead opt demands solarForecasts prices schedule initial ! n)
             = round_to 100
                 (snd (dayAheadLoop opt demands solarForecasts prices schedule initial (Suc n))))"
proof -
  have cap: "0 \<le> batteryCapacity opt" using assms(1,2) by simp
  have rng: "0 \<le> snd (dayAheadLoop opt demands solarForecasts prices schedule initial n)
    \<and> snd (dayAheadLoop opt demands solarForecasts prices schedule initial n) \<le> batteryCapacity opt"
  proof (cases n)
    case 0
    then show ?thesis using assms(1,2) by (simp add: dayAheadLoop_0)
  next
    case (Suc m)
    then show ?thesis using cap by (simp add: dayAheadLoop_Suc dayAheadStep_snd)
  qed
  have upd: "snd (dayAheadLoop opt demands solarForecasts prices schedule initial (Suc n))
           = max 0 (min (batteryCapacity opt)
               (snd (dayAheadLoop opt demands solarForecasts prices schedule initial n)
                - batteryKwh (optimize opt (demands ! n) (solarForecasts ! n)
                     (nth_or (12 / 100) prices n)
                     (snd (dayAheadLoop opt demands solarForecasts prices schedule initial n))
                     (nth_or MidPeak schedule n))
                + batteryCharge (optimize opt (demands ! n) (solarForecasts ! n)
                     (nth_or (12 / 100) prices n)
                     (snd (dayAheadLoop opt demands solarForecasts prices schedule initial n))
                     (nth_or MidPeak schedule n))))"
    by (simp only: dayAheadLoop_Suc dayAheadStep_snd)
  have out: "n < length demands \<longrightarrow>
      batteryLevel (optimizeDayAhead opt demands solarForecasts prices schedule initial ! n)
        = round_to 100
            (snd (dayAheadLoop opt demands solarForecasts prices schedule initial (Suc n)))"
    using dayAheadLoop_nth [of n "length demands" opt demands solarForecasts prices schedule initial]
    by (simp add: optimizeDayAhead_def)
  from rng upd out show ?thesis by simp
qed

theorem day_ahead_battery_level_in_range_witness:
  "(0::real) \<le> 25 \<and> 25 \<le> batteryCapacity (EnergyOptimizer 50 (95 / 100))
   \<and> length [50, 10 :: real] \<le> length [30, 40 :: real] \<and> (1::nat) \<le> length [50, 10 :: real]
   \<and> snd (dayAheadLoop (EnergyOptimizer 50 (95 / 100)) [50, 10] [30, 40] [12 / 100, 12 / 100]
        [Peak, OffPeak] 25 1) = 5
   \<and> snd (dayAheadLoop (EnergyOptimizer 50 (95 / 100)) [50, 10] [30, 40] [12 / 100, 12 / 100]
        [Peak, OffPeak] 25 2) = 67 / 2"
proof -
  have h: "(0::real) \<le> 25" "25 \<le> batteryCapacity (EnergyOptimizer 50 (95 / 100))"
    "length [50, 10 :: real] \<le> length [30, 40 :: real]" "(1::nat) \<le> length [50, 10 :: real]"
    by (simp_all add: EnergyOptimizer_def)
  have l0: "snd (dayAheadLoop (EnergyOptimizer 50 (95 / 100)) [50, 10] [30, 40]
      [12 / 100, 12 / 100] [Peak, OffPeak] 25 0) = 25"
    by (simp add: dayAheadLoop_def)
  have l1: "snd (dayAheadLoop (EnergyOptimizer 50 (95 / 100)) [50, 10] [30, 40]
      [12 / 100, 12 / 100] [Peak, OffPeak] 25 1) = 5"
    using day_ahead_battery_level_in_range [OF h(1) h(2) h(3), of 0 "[12 / 100, 12 / 100]" "[Peak, OffPeak]"] l0
    by (simp add: nth_or_def optimize_def dispatch_steps_def EnergyOptimizer_def Let_def
        round_to_def Math_round_def)
  have l2: "snd (dayAheadLoop (EnergyOptimizer 50 (95 / 100)) [50, 10] [30, 40]
      [12 / 100, 12 / 100] [Peak, OffPeak] 25 2) = 67 / 2"
    using day_ahead_battery_level_in_range [OF h, of "[12 / 100, 12 / 100]" "[Peak, OffPeak]"] l1
    by (simp add: nth_or_def optimize_def dispatch_steps_def EnergyOptimizer_def Let_def
        round_to_def Math_round_def numeral_2_eq_2)
  show ?thesis using h l1 l2 by simp
qed

section \<open>Properties of load shifting\<close>

lemma calculateLoadCost_cases:
  "calculateLoadCost l h ds ss ps = NaN \<or> (\<exists>c. calculateLoadCost l h ds ss ps = Num c)"
  by (simp add: calculateLoadCost_def js_get_def Let_def js_sub_def Math_max_def)

lemma calculateLoadCost_valid:
  "validHour ds ss ps h \<Longrightarrow> calculateLoadCost l h ds ss ps = Num (hourCost l ds ss ps h)"
  by (simp add: calculateLoadCost_def js_get_def Let_def js_sub_def Math_max_def validHour_def
      hourCost_def max_def)

lemma calculateLoadCost_Num_in_range:
  "calculateLoadCost l h ds ss ps = Num c \<Longrightarrow> h < int (length ds)"
  by (auto simp add: calculateLoadCost_def js_get_def Let_def js_sub_def Math_max_def
      split: if_splits)

lemma considerHour_bound:
  assumes "snd best = Num b"
  shows "\<exists>b'. snd (considerHour l ds ss ps h best) = Num b' \<and> b' \<le> b"
proof -
  from calculateLoadCost_cases [of l h ds ss ps] show ?thesis
  proof
    assume "calculateLoadCost l h ds ss ps = NaN"
    then show ?thesis using assms by (simp add: considerHour_def Let_def)
  next
    assume "\<exists>c. calculateLoadCost l h ds ss ps = Num c"
    then obtain c where "calculateLoadCost l h ds ss ps = Num c" ..
    then show ?thesis using assms by (auto simp add: considerHour_def Let_def)
  qed
qed

lemma fold_considerHour_bound:
  "snd best = Num b \<Longrightarrow>
     \<exists>b'. snd (fold (considerHour l ds ss ps) w best) = Num b' \<and> b' \<le> b"
proof (induction w arbitrary: best b)
  case Nil
  then show ?case by simp
next
  case (Cons h w)
  from considerHour_bound [OF Cons.prems, where l = l and ds = ds and ss = ss and ps = ps and h = h]
  obtain b1 where b1: "snd (considerHour l ds ss ps h best) = Num b1" "b1 \<le> b" by blast
  from Cons.IH [OF b1(1)]
  obtain b2 where "snd (fold (considerHour l ds ss ps) w (considerHour l ds ss ps h best)) = Num b2"
    "b2 \<le> b1" by blast
  with b1(2) show ?case by auto
qed

lemma shiftLoad_savings_not_negative:
  "\<not> js_lt (savings (fst (shiftLoad load ds ss ps))) (Num 0)"
proof (cases "timeWindow load")
  case Nil
  then show ?thesis
    by (simp add: shiftLoad_def Let_def firstHour_def costAt_def js_sub_def js_round_to_NaN)
next
  case (Cons h w)
  from calculateLoadCost_cases [of "loadKwh load" h ds ss ps] show ?thesis
  proof
    assume "calculateLoadCost (loadKwh load) h ds ss ps = NaN"
    then show ?thesis using Cons
      by (simp add: shiftLoad_def Let_def firstHour_def costAt_def js_sub_def js_round_to_NaN)
  next
    assume "\<exists>c. calculateLoadCost (loadKwh load) h ds ss ps = Num c"
    then obtain c where c: "calculateLoadCost (loadKwh load) h ds ss ps = Num c" ..
    have "h < int (length ds)" using c by (rule calculateLoadCost_Num_in_range)
    then have first: "snd (considerHour (loadKwh load) ds ss ps h (Some h, PosInf)) = Num c"
      using c by (simp add: considerHour_def Let_def)
    from fold_considerHour_bound [OF first, where w = w]
    obtain b where b: "snd (fold (considerHour (loadKwh load) ds ss ps) w
        (considerHour (loadKwh load) ds ss ps h (Some h, PosInf))) = Num b" "b \<le> c"
      by blast
    have "savings (fst (shiftLoad load ds ss ps)) = Num (round_to 100 (c - b))"
      using Cons c b(1)
      by (simp add: shiftLoad_def Let_def firstHour_def costAt_def findBest_def js_sub_def
          js_round_to_Num)
    moreover have "0 \<le> round_to 100 (c - b)" using b(2) by (simp add: round_to_nonneg)
    ultimately show ?thesis by simp
  qed
qed

text \<open>The state of the search after a non-empty prefix of the window.\<close>

lemma fold_considerHour_first_min:
  assumes "\<forall>h \<in> set ys. validHour ds ss ps h"
  shows "ys \<noteq> [] \<Longrightarrow>
     \<exists>n<length ys.
        fold (considerHour l ds ss ps) ys (b0, PosInf)
          = (Some (ys ! n), Num (hourCost l ds ss ps (ys ! n)))
        \<and> (\<forall>m<length ys. hourCost l ds ss ps (ys ! n) \<le> hourCost l ds ss ps (ys ! m))
        \<and> (\<forall>m<n. hourCost l ds ss ps (ys ! n) < hourCost l ds ss ps (ys ! m))"
  using assms
proof (induction ys rule: rev_induct)
  case Nil
  then show ?case by simp
next
  case (snoc x ys)
  let ?c = "hourCost l ds ss ps"
  have vx: "validHour ds ss ps x" using snoc.prems(2) by simp
  have cx: "calculateLoadCost l x ds ss ps = Num (?c x)"
    using vx by (rule calculateLoadCost_valid)
  have inr: "x < int (length ds)" using vx by (simp add: validHour_def)
  show ?case
  proof (cases "ys = []")
    case True
    then show ?thesis using cx inr by (simp add: considerHour_def Let_def)
  next
    case False
    have "\<forall>h \<in> set ys. validHour ds ss ps h" using snoc.prems(2) by simp
    from snoc.IH [OF False this]
    obtain n where n: "n < length ys"
      and st: "fold (considerHour l ds ss ps) ys (b0, PosInf) = (Some (ys ! n), Num (?c (ys ! n)))"
      and mn: "\<forall>m<length ys. ?c (ys ! n) \<le> ?c (ys ! m)"
      and fst: "\<forall>m<n. ?c (ys ! n) < ?c (ys ! m)"
      by blast
    show ?thesis
    proof (cases "?c x < ?c (ys ! n)")
      case True
      have a: "fold (considerHour l ds ss ps) (ys @ [x]) (b0, PosInf)
          = (Some ((ys @ [x]) ! length ys), Num (?c ((ys @ [x]) ! length ys)))"
        using st cx inr True by (simp add: considerHour_def Let_def)
      have b: "\<forall>m<length (ys @ [x]). ?c ((ys @ [x]) ! length ys) \<le> ?c ((ys @ [x]) ! m)"
        using mn True by (auto simp add: nth_append less_Suc_eq) 
      have c: "\<forall>m<length ys. ?c ((ys @ [x]) ! length ys) < ?c ((ys @ [x]) ! m)"
        using mn True by (auto simp add: nth_append) 
      from a b c show ?thesis
        by (intro exI [of _ "length ys"]) simp
    next
      case False
      have a: "fold (considerHour l ds ss ps) (ys @ [x]) (b0, PosInf)
          = (Some ((ys @ [x]) ! n), Num (?c ((ys @ [x]) ! n)))"
        using st cx inr False n by (simp add: considerHour_def Let_def nth_append)
      have b: "\<forall>m<length (ys @ [x]). ?c ((ys @ [x]) ! n) \<le> ?c ((ys @ [x]) ! m)"
        using mn False n by (auto simp add: nth_append less_Suc_eq)
      have c: "\<forall>m<n. ?c ((ys @ [x]) ! n) < ?c ((ys @ [x]) ! m)"
        using fst n by (auto simp add: nth_append)
      from a b c n show ?thesis
        by (intro exI [of _ n]) simp
    qed
  qed
qed

text \<open>
  C3 (amended). For a flexible load whose window is not empty and lists hours that have a
  demand, a forecast and a price, the advisor picks an hour of the window of minimal cost,
  the first such hour in the order of the window, reports the first-listed hour as the
  original hour, and reports as savings the cost at the first-listed hour minus the cost
  at the chosen hour, rounded to two decimals; this difference is never negative.
\<close>

theorem load_shifting_picks_first_cheapest:
  assumes "timeWindow load \<noteq> []"
    and "\<forall>h \<in> set (timeWindow load). validHour demands solarForecasts gridPrices h"
  shows "\<exists>n<length (timeWindow load).
      optimalHour (fst (shiftLoad load demands solarForecasts gridPrices))
        = Some (timeWindow load ! n)
      \<and> originalHour (fst (shiftLoad load demands solarForecasts gridPrices))
        = Some (timeWindow load ! 0)
      \<and> (\<forall>m<length (timeWindow load).
           hourCost (loadKwh load) demands solarForecasts gridPrices (timeWindow load ! n)
             \<le> hourCost (loadKwh load) demands solarForecasts gridPrices (timeWindow load ! m))
      \<and> (\<forall>m<n.
           hourCost (loadKwh load) demands solarForecasts gridPrices (timeWindow load ! n)
             < hourCost (loadKwh load) demands solarForecasts gridPrices (timeWindow load ! m))
      \<and> savings (fst (shiftLoad load demands solarForecasts gridPrices))
          = Num (round_to 100
              (hourCost (loadKwh load) demands solarForecasts gridPrices (timeWindow load ! 0)
               - hourCost (loadKwh load) demands solarForecasts gridPrices (timeWindow load ! n)))
      \<and> 0 \<le> hourCost (loadKwh load) demands solarForecasts gridPrices (timeWindow load ! 0)
               - hourCost (loadKwh load) demands solarForecasts gridPrices (timeWindow load ! n)"
proof -
  let ?w = "timeWindow load"
  let ?c = "hourCost (loadKwh load) demands solarForecasts gridPrices"
  from fold_considerHour_first_min [OF assms(2) assms(1), where l = "loadKwh load"
      and ?b0.0 = "firstHour ?w"]
  obtain n where n: "n < length ?w"
    and st: "findBest (loadKwh load) demands solarForecasts gridPrices ?w
        = (Some (?w ! n), Num (?c (?w ! n)))"
    and mn: "\<forall>m<length ?w. ?c (?w ! n) \<le> ?c (?w ! m)"
    and fs: "\<forall>m<n. ?c (?w ! n) < ?c (?w ! m)"
    unfolding findBest_def by blast
  have fh: "firstHour ?w = Some (?w ! 0)"
    using assms(1) by (cases ?w) (simp_all add: firstHour_def)
  have v0: "validHour demands solarForecasts gridPrices (?w ! 0)"
    using assms by (cases ?w) simp_all
  have c0: "costAt (loadKwh load) (firstHour ?w) demands solarForecasts gridPrices = Num (?c (?w ! 0))"
    using fh calculateLoadCost_valid [OF v0] by (simp add: costAt_def)
  have sv: "savings (fst (shiftLoad load demands solarForecasts gridPrices))
      = Num (round_to 100 (?c (?w ! 0) - ?c (?w ! n)))"
    using st c0 by (simp add: shiftLoad_def Let_def js_sub_def js_round_to_Num)
  have oh: "optimalHour (fst (shiftLoad load demands solarForecasts gridPrices)) = Some (?w ! n)"
    using st by (simp add: shiftLoad_def Let_def)
  have orh: "originalHour (fst (shiftLoad load demands solarForecasts gridPrices)) = Some (?w ! 0)"
    using fh by (simp add: shiftLoad_def Let_def)
  have nn: "0 \<le> ?c (?w ! 0) - ?c (?w ! n)"
    using mn assms(1) by simp
  from n oh orh mn fs sv nn show ?thesis by blast
qed

theorem load_shifting_picks_first_cheapest_witness:
  "timeWindow \<lparr>name = ''dryer'', loadKwh = 5, timeWindow = [0, 1, 2]\<rparr> \<noteq> []
   \<and> list_all (validHour [10, 10, 10] [0, 0, 20] [2 / 10, 1 / 10, 1 / 10])
        (timeWindow \<lparr>name = ''dryer'', loadKwh = 5, timeWindow = [0, 1, 2]\<rparr>)
   \<and> optimalHour (fst (shiftLoad \<lparr>name = ''dryer'', loadKwh = 5, timeWindow = [0, 1, 2]\<rparr>
         [10, 10, 10] [0, 0, 20] [2 / 10, 1 / 10, 1 / 10])) = Some 2
   \<and> savings (fst (shiftLoad \<lparr>name = ''dryer'', loadKwh = 5, timeWindow = [0, 1, 2]\<rparr>
         [10, 10, 10] [0, 0, 20] [2 / 10, 1 / 10, 1 / 10])) = Num 3"
proof -
  let ?load = "\<lparr>name = ''dryer'', loadKwh = 5, timeWindow = [0, 1, 2]\<rparr>"
  let ?ds = "[10, 10, 10 :: real]"
  let ?ss = "[0, 0, 20 :: real]"
  let ?ps = "[2 / 10, 1 / 10, 1 / 10 :: real]"
  have h1: "timeWindow ?load \<noteq> []" by simp
  have h2: "\<forall>h \<in> set (timeWindow ?load). validHour ?ds ?ss ?ps h"
    by (simp add: validHour_def)
  have c0: "hourCost 5 ?ds ?ss ?ps 0 = 3" by (simp add: hourCost_def)
  have c1: "hourCost 5 ?ds ?ss ?ps 1 = 3 / 2" by (simp add: hourCost_def)
  have c2: "hourCost 5 ?ds ?ss ?ps 2 = 0" by (simp add: hourCost_def)
  from load_shifting_picks_first_cheapest [OF h1 h2]
  obtain n where n: "n < length (timeWindow ?load)"
    and oh: "optimalHour (fst (shiftLoad ?load ?ds ?ss ?ps)) = Some (timeWindow ?load ! n)"
    and mn: "\<forall>m<length (timeWindow ?load).
        hourCost (loadKwh ?load) ?ds ?ss ?ps (timeWindow ?load ! n)
          \<le> hourCost (loadKwh ?load) ?ds ?ss ?ps (timeWindow ?load ! m)"
    and sv: "savings (fst (shiftLoad ?load ?ds ?ss ?ps))
       = Num (round_to 100 (hourCost (loadKwh ?load) ?ds ?ss ?ps (timeWindow ?load ! 0)
                - hourCost (loadKwh ?load) ?ds ?ss ?ps (timeWindow ?load ! n)))"
    by blast
  from mn have le2: "hourCost 5 ?ds ?ss ?ps ([0, 1, 2] ! n) \<le> hourCost 5 ?ds ?ss ?ps 2"
    by (simp add: numeral_3_eq_3 less_Suc_eq)
  from n have n3: "n < 3" by simp
  from n3 have "n = 0 \<or> n = 1 \<or> n = 2" by arith
  then have n2: "n = 2" using le2 c0 c1 c2 by auto
  have r: "round_to 100 3 = 3" by (simp add: round_to_def Math_round_def)
  show ?thesis using h1 h2 oh sv n2 c0 c2 r by (simp add: list_all_iff)
qed

text \<open>
  The last part of the claim as first stated fails: the default hour is the first hour of the window, so
  it is one of the hours the search compares, and no input makes the reported savings
  negative (they are not negative, or \<open>NaN\<close> when the default hour has no data).
\<close>

theorem load_shifting_savings_never_negative:
  "\<not> (\<exists>flexibleLoads demands solarForecasts gridPrices r.
        r \<in> set (shiftedLoads (optimizeLoadShifting flexibleLoads demands solarForecasts gridPrices))
        \<and> js_lt (savings r) (Num 0))"
  by (auto simp add: optimizeLoadShifting_def Let_def shiftLoad_savings_not_negative)

section \<open>Properties of the forecaster\<close>

lemma stabilityScore_cases:
  assumes "0 \<le> s"
  shows "Math_max (Num 0) (js_sub (Num 1) (js_div (Num s) (Num m)))
     = (if m \<noteq> 0 then Num (max 0 (1 - s / m)) else if 0 < s then Num 0 else NaN)"
  using assms by (simp add: Math_max_def js_sub_def max_def)

lemma stabilityScore_defined:
  assumes "0 \<le> s"
  shows "Math_max (Num 0) (js_sub (Num 1) (js_div (Num s) (Num m))) = NaN
     \<or> (\<exists>y. Math_max (Num 0) (js_sub (Num 1) (js_div (Num s) (Num m))) = Num y)"
  unfolding stabilityScore_cases [OF assms] by simp

lemma weighted_sum_defined:
  assumes "S = NaN \<or> (\<exists>y. S = Num y)"
  shows "js_add (js_add (js_add (js_mul S (Num a)) (Num b)) (Num c)) (Num d) = NaN
     \<or> (\<exists>x. js_add (js_add (js_add (js_mul S (Num a)) (Num b)) (Num c)) (Num d) = Num x)"
  using assms by auto

lemma calculateConfidence_cases:
  "calculateConfidence data = NaN \<or> (\<exists>x. calculateConfidence data = Num x)"
  unfolding calculateConfidence_def Let_def
proof (rule weighted_sum_defined, rule stabilityScore_defined)
  let ?vs = "map kwh (lastN 48 data)"
  let ?mean = "sum_list ?vs / real (length ?vs)"
  have "0 \<le> sum_list (map (\<lambda>v. (v - ?mean) ^ 2) ?vs) / real (length ?vs)"
    by (intro divide_nonneg_nonneg sum_list_nonneg) auto
  then show "0 \<le> sqrt (sum_list (map (\<lambda>v. (v - ?mean) ^ 2) ?vs) / real (length ?vs))"
    by simp
qed

lemma clamp_confidence:
  "Math_min (Num hi) (Math_max (Num lo) (Num x)) = Num (min hi (max lo x))"
  by (simp add: Math_min_def Math_max_def min_def max_def)

lemma clamp_confidence_NaN:
  "Math_min (Num hi) (Math_max (Num lo) NaN) = NaN"
  by (simp add: Math_min_def Math_max_def)

lemma forecast_bounds:
  assumes "48 \<le> length data"
  shows "\<exists>r. forecastNextHour data = Inr r \<and> 5 \<le> nextHourDemand r \<and> 0 \<le> solarAvailable r
    \<and> (confidence r = NaN
        \<or> (\<exists>c. confidence r = Num c \<and> 65 / 100 \<le> c \<and> c \<le> 98 / 100))"
proof -
  from calculateConfidence_cases [of data] show ?thesis
  proof
    assume "calculateConfidence data = NaN"
    then show ?thesis using assms
      by (simp add: forecastNextHour_def Let_def clamp_confidence_NaN)
  next
    assume "\<exists>x. calculateConfidence data = Num x"
    then obtain x where "calculateConfidence data = Num x" ..
    then show ?thesis using assms
      by (auto simp add: forecastNextHour_def Let_def clamp_confidence min_def max_def)
  qed
qed

lemma weighted_sum_Num:
  "js_add (js_add (js_add (js_mul (Num y) (Num a)) (Num b)) (Num c)) (Num d)
     = Num (y * a + b + c + d)"
  by simp

lemma calculateConfidence_defined:
  assumes "48 \<le> length data" "sum_list (map kwh (lastN 48 data)) \<noteq> 0"
  shows "\<exists>x. calculateConfidence data = Num x"
proof -
  let ?vs = "map kwh (lastN 48 data)"
  let ?mean = "sum_list ?vs / real (length ?vs)"
  let ?var = "sum_list (map (\<lambda>v. (v - ?mean) ^ 2) ?vs) / real (length ?vs)"
  have len: "length (lastN 48 data) = 48" using assms(1) by (simp add: lastN_def)
  have m: "?mean \<noteq> 0" using assms(2) len by simp
  have "0 \<le> ?var"
    by (intro divide_nonneg_nonneg sum_list_nonneg) auto
  then have "0 \<le> sqrt ?var" by simp
  from stabilityScore_cases [OF this, of ?mean] m
  have "Math_max (Num 0) (js_sub (Num 1) (js_div (Num (sqrt ?var)) (Num ?mean)))
      = Num (max 0 (1 - sqrt ?var / ?mean))"
    by simp
  then show ?thesis
    unfolding calculateConfidence_def Let_def by (simp only: weighted_sum_Num) blast
qed

lemma forecast_in_bounds_when_consumption_nonzero:
  assumes "48 \<le> length data" "sum_list (map kwh (lastN 48 data)) \<noteq> 0"
  shows "\<exists>r c. forecastNextHour data = Inr r \<and> 5 \<le> nextHourDemand r \<and> 0 \<le> solarAvailable r
    \<and> confidence r = Num c \<and> 65 / 100 \<le> c \<and> c \<le> 98 / 100"
proof -
  from calculateConfidence_defined [OF assms]
  obtain x where "calculateConfidence data = Num x" ..
  then show ?thesis using assms(1)
    by (auto simp add: forecastNextHour_def Let_def clamp_confidence min_def max_def)
qed

text \<open>
  C5. The claim asks for a confidence within [0.65, 0.98] on every history of at least 48
  samples. On 48 samples that all read 0 kWh the coefficient of variation is \<open>0 / 0\<close>:
  the confidence that \<open>forecastNextHour\<close> returns is \<open>NaN\<close>, which the clamp does not
  repair. Whenever the last 48 readings do not sum to zero the three bounds hold
  (\<open>forecast_in_bounds_when_consumption_nonzero\<close>).
\<close>

theorem forecast_confidence_nan_on_idle_history:
  "length (replicate 48 (reading 0)) = 48
   \<and> (case forecastNextHour (replicate 48 (reading 0)) of
        Inl e \<Rightarrow> False
      | Inr r \<Rightarrow> confidence r = NaN)"
proof -
  have "calculateConfidence (replicate 48 (reading 0)) = NaN"
    by (simp add: calculateConfidence_def Let_def lastN_def reading_def sum_list_replicate
        Math_max_def js_sub_def)
  then show ?thesis
    by (simp add: forecastNextHour_def Let_def clamp_confidence_NaN)
qed

section \<open>Properties of the anomaly detector\<close>

lemma addPattern_keys: "fst ` set (addPattern k v ps) = insert k (fst ` set ps)"
  by (induction k v ps rule: addPattern.induct) (simp_all add: insert_commute)

lemma fold_addPattern_keys:
  "fst ` set (fold (\<lambda>d ps. addPattern (baselineKey d) (kwh d) ps) data ps0)
     = baselineKey ` set data \<union> fst ` set ps0"
  by (induction data arbitrary: ps0) (auto simp add: addPattern_keys)

lemma patterns_keys: "fst ` set (patterns data) = baselineKey ` set data"
  by (simp add: patterns_def fold_addPattern_keys)

lemma fold_setMedian_agree:
  "b k = b' k \<Longrightarrow> fold setMedian ps b k = fold setMedian ps b' k"
proof (induction ps arbitrary: b b')
  case Nil
  then show ?case by simp
next
  case (Cons p ps)
  have "setMedian p b k = setMedian p b' k"
    using Cons.prems by (simp add: setMedian_def)
  then have "fold setMedian ps (setMedian p b) k = fold setMedian ps (setMedian p b') k"
    by (rule Cons.IH)
  then show ?case by simp
qed

lemma fold_setMedian_covered:
  "k \<in> fst ` set ps \<Longrightarrow> fold setMedian ps b k = fold setMedian ps b' k"
proof (induction ps arbitrary: b b')
  case Nil
  then show ?case by simp
next
  case (Cons p ps)
  show ?case
  proof (cases "k = fst p")
    case True
    then have "setMedian p b k = setMedian p b' k" by (simp add: setMedian_def)
    then have "fold setMedian ps (setMedian p b) k = fold setMedian ps (setMedian p b') k"
      by (rule fold_setMedian_agree)
    then show ?thesis by simp
  next
    case False
    with Cons.prems have "k \<in> fst ` set ps" by auto
    then have "fold setMedian ps (setMedian p b) k = fold setMedian ps (setMedian p b') k"
      by (rule Cons.IH)
    then show ?thesis by simp
  qed
qed

lemma fold_setMedian_other:
  "k \<notin> fst ` set ps \<Longrightarrow> fold setMedian ps b k = b k"
proof (induction ps arbitrary: b)
  case Nil
  then show ?case by simp
next
  case (Cons p ps)
  from Cons.prems have k: "k \<noteq> fst p" "k \<notin> fst ` set ps" by auto
  have "fold setMedian ps (setMedian p b) k = setMedian p b k"
    using k(2) by (rule Cons.IH)
  moreover have "setMedian p b k = b k"
    using k(1) by (simp add: setMedian_def)
  ultimately show ?case by simp
qed

lemma buildHistoricalBaseline_keeps_other_keys:
  "k \<notin> baselineKey ` set data \<Longrightarrow> buildHistoricalBaseline b data k = b k"
  unfolding buildHistoricalBaseline_def
  by (rule fold_setMedian_other) (simp add: patterns_keys)

lemma buildHistoricalBaseline_fresh:
  "d \<in> set data \<Longrightarrow>
     buildHistoricalBaseline b data (baselineKey d) = buildHistoricalBaseline b' data (baselineKey d)"
  unfolding buildHistoricalBaseline_def
  by (rule fold_setMedian_covered) (simp add: patterns_keys)

lemma detectAt_fresh:
  assumes "i < length data"
  shows "detectAt s (buildHistoricalBaseline b data) data w i
     = detectAt s (buildHistoricalBaseline b' data) data w i"
proof -
  have "data ! i \<in> set data" using assms by simp
  from buildHistoricalBaseline_fresh [OF this, of b b']
  have "detectPatternAnomaly (buildHistoricalBaseline b data) (data ! i)
      = detectPatternAnomaly (buildHistoricalBaseline b' data) (data ! i)"
    by (simp add: detectPatternAnomaly_def)
  then show ?thesis by (simp add: detectAt_def)
qed

lemma detectAnomalies_fresh:
  "fst (detectAnomalies s b data w) = fst (detectAnomalies s b' data w)"
  by (simp add: detectAnomalies_def Let_def detectAt_fresh)

text \<open>
  C7. For all histories \<open>h1\<close> and \<open>h2\<close> and all window sizes, \<open>detectAnomalies\<close> on
  \<open>h2\<close> with a detector that has run on \<open>h1\<close> before returns the records that a new
  detector of the same sensitivity returns on \<open>h2\<close>: every baseline entry that the
  second call reads was set by the second call.
\<close>

theorem detect_independent_of_previous_call:
  "fst (detectAnomalies sensitivity
          (snd (detectAnomalies sensitivity AnomalyDetector h1 w1)) h2 w2)
     = fst (detectAnomalies sensitivity AnomalyDetector h2 w2)"
  by (rule detectAnomalies_fresh)

lemma score_le_3: "getSeverityScore s \<le> 3"
  by (cases s) simp_all

lemma score_High: "(getSeverityScore s < 3) = (s \<noteq> High)"
  by (cases s) simp_all

lemma moreSevere_High: "severity a = High \<Longrightarrow> moreSevere a x = a"
  using score_le_3 [of "severity x"] by (simp add: moreSevere_def)

lemma foldl_moreSevere_High: "severity a = High \<Longrightarrow> foldl moreSevere a xs = a"
  by (induction xs) (simp_all add: moreSevere_High)

lemma foldl_moreSevere_first_high:
  "filter (\<lambda>x. severity x = High) (a # xs) \<noteq> [] \<Longrightarrow>
     foldl moreSevere a xs = hd (filter (\<lambda>x. severity x = High) (a # xs))"
proof (induction xs arbitrary: a)
  case Nil
  then show ?case by (simp split: if_splits)
next
  case (Cons x xs)
  show ?case
  proof (cases "severity a = High")
    case True
    then show ?thesis by (simp add: foldl_moreSevere_High moreSevere_High)
  next
    case a: False
    show ?thesis
    proof (cases "severity x = High")
      case True
      then have "moreSevere a x = x" using a by (simp add: moreSevere_def score_High)
      then show ?thesis using a True by (simp add: foldl_moreSevere_High)
    next
      case False
      let ?m = "moreSevere a x"
      have m: "severity ?m \<noteq> High" using a False by (simp add: moreSevere_def)
      have ne: "filter (\<lambda>x. severity x = High) (?m # xs) \<noteq> []"
        using Cons.prems a False m by simp
      from Cons.IH [OF ne] show ?thesis using a False m by simp
    qed
  qed
qed

lemma mostSevereOf_first_high:
  assumes "filter flaggedHigh rs \<noteq> []"
  shows "mostSevereOf (filter isAnomaly rs) = hd (filter flaggedHigh rs)"
proof -
  have eq: "filter (\<lambda>x. severity x = High) (filter isAnomaly rs) = filter flaggedHigh rs"
    by (simp add: flaggedHigh_def [abs_def] conj_commute)
  then have ne: "filter (\<lambda>x. severity x = High) (filter isAnomaly rs) \<noteq> []"
    using assms by simp
  have "filter isAnomaly rs \<noteq> []"
    using assms by (auto simp add: filter_empty_conv flaggedHigh_def)
  then obtain a xs where axs: "filter isAnomaly rs = a # xs" by (cases "filter isAnomaly rs") auto
  from foldl_moreSevere_first_high [of a xs] ne axs eq show ?thesis
    by (simp add: mostSevereOf_def)
qed

lemma detectPatternAnomaly_type:
  "isAnomaly (detectPatternAnomaly b c) \<Longrightarrow> anomalyType (detectPatternAnomaly b c) = Some Pattern"
  by (simp add: detectPatternAnomaly_def notAnomalous_def Let_def split: option.splits if_splits)

lemma detectContextualAnomaly_type:
  "isAnomaly (detectContextualAnomaly c w) \<Longrightarrow>
     anomalyType (detectContextualAnomaly c w) = Some Pattern"
  by (simp add: detectContextualAnomaly_def notAnomalous_def Let_def split: if_splits)

lemma detectEquipmentAnomaly_spike:
  assumes "3 \<le> length recent"
    and "0 < sum_list (map kwh recent) / real (length recent)"
    and "kwh current = 3 * (sum_list (map kwh recent) / real (length recent))"
  shows "isAnomaly (detectEquipmentAnomaly current recent)
    \<and> severity (detectEquipmentAnomaly current recent) = High
    \<and> anomalyType (detectEquipmentAnomaly current recent) = Some Spike"
proof -
  let ?avg = "sum_list (map kwh recent) / real (length recent)"
  have a: "\<not> kwh current < ?avg * (4 / 10)" using assms(2,3) by simp
  have b: "?avg * 2 < kwh current" using assms(2,3) by simp
  have c: "\<not> length recent < 3" using assms(1) by simp
  show ?thesis
    unfolding detectEquipmentAnomaly_def Let_def
    by (simp only: a b c if_False if_True length_map) simp
qed

lemma detectAt_triple:
  assumes "6 \<le> i" "i < length data" "0 < trailingMean data i"
    and "kwh (data ! i) = 3 * trailingMean data i"
  shows "isAnomaly (detectAt sens b data w i) \<and> severity (detectAt sens b data w i) = High
    \<and> anomalyType (detectAt sens b data w i)
        = (if flaggedHigh (detectStatisticalAnomaly sens (data ! i) (drop (i - w) (take i data)))
           then anomalyType (detectStatisticalAnomaly sens (data ! i) (drop (i - w) (take i data)))
           else if flaggedHigh (detectPatternAnomaly b (data ! i))
                   \<or> flaggedHigh (detectContextualAnomaly (data ! i) (drop (i - w) (take i data)))
           then Some Pattern
           else Some Spike)"
proof -
  let ?cur = "data ! i"
  let ?win = "drop (i - w) (take i data)"
  let ?st = "detectStatisticalAnomaly sens ?cur ?win"
  let ?pa = "detectPatternAnomaly b ?cur"
  let ?co = "detectContextualAnomaly ?cur ?win"
  let ?eq = "detectEquipmentAnomaly ?cur (drop (i - 6) (take i data))"
  let ?rs = "[?st, ?pa, ?co, ?eq]"
  have len: "3 \<le> length (drop (i - 6) (take i data))" using assms(1,2) by simp
  from detectEquipmentAnomaly_spike [OF len, of ?cur] assms(3,4)
  have eq: "isAnomaly ?eq" "severity ?eq = High" "anomalyType ?eq = Some Spike"
    by (simp_all add: trailingMean_def)
  have fe: "flaggedHigh ?eq" using eq by (simp add: flaggedHigh_def)
  then have ne: "filter flaggedHigh ?rs \<noteq> []" by simp
  have det: "0 < length (filter isAnomaly ?rs)" using eq(1) by simp
  have ms: "mostSevereOf (filter isAnomaly ?rs) = hd (filter flaggedHigh ?rs)"
    using ne by (rule mostSevereOf_first_high)
  have r: "detectAt sens b data w i =
      \<lparr>anomalyTimestamp = timestamp ?cur, anomalyValue = kwh ?cur, isAnomaly = True,
       severity = severity (hd (filter flaggedHigh ?rs)),
       anomalyType = anomalyType (hd (filter flaggedHigh ?rs)),
       anomalyConfidence = Some (calculateAnomalyConfidence (filter isAnomaly ?rs))\<rparr>"
    unfolding detectAt_def Let_def using det ms by (simp only: if_True)
  have "hd (filter flaggedHigh ?rs) \<in> set (filter flaggedHigh ?rs)"
    using ne by (rule hd_in_set)
  then have sev: "severity (hd (filter flaggedHigh ?rs)) = High"
    by (simp only: set_filter) (simp add: flaggedHigh_def)
  have pt: "flaggedHigh ?pa \<Longrightarrow> anomalyType ?pa = Some Pattern"
    by (simp add: flaggedHigh_def detectPatternAnomaly_type)
  have ct: "flaggedHigh ?co \<Longrightarrow> anomalyType ?co = Some Pattern"
    by (simp add: flaggedHigh_def detectContextualAnomaly_type)
  have ty: "anomalyType (hd (filter flaggedHigh ?rs))
      = (if flaggedHigh ?st then anomalyType ?st
         else if flaggedHigh ?pa \<or> flaggedHigh ?co then Some Pattern else Some Spike)"
    using fe eq(3) pt ct by auto
  show ?thesis unfolding r using sev ty by simp
qed

lemma detectAnomalies_nth:
  assumes "max w 24 \<le> i" "i < length data"
  shows "fst (detectAnomalies sens b data w) ! (i - max w 24)
     = detectAt sens (buildHistoricalBaseline b data) data w i"
proof -
  have lt: "i - max w 24 < length data - max w 24"
    using assms(2,1) by (rule diff_less_mono)
  then have "i - max w 24 < length [max w 24..<length data]" by (simp only: length_upt)
  then have "map (detectAt sens (buildHistoricalBaseline b data) data w) [max w 24..<length data]
        ! (i - max w 24)
      = detectAt sens (buildHistoricalBaseline b data) data w ([max w 24..<length data] ! (i - max w 24))"
    by (rule nth_map)
  moreover have "[max w 24..<length data] ! (i - max w 24) = i"
  proof -
    have "max w 24 + (i - max w 24) < length data" using assms by linarith
    then have "[max w 24..<length data] ! (i - max w 24) = max w 24 + (i - max w 24)"
      by (rule nth_upt)
    then show ?thesis using assms(1) by linarith
  qed
  ultimately show ?thesis by (simp add: detectAnomalies_def Let_def)
qed

text \<open>
  C8 (amended). For every history and every scored sample (index \<open>i\<close> from
  \<open>max(window_size, 24)\<close> on) whose consumption is 3 times the mean of the trailing 6
  samples, with that mean positive, the record emitted for the sample has
  \<open>isAnomaly = true\<close> and \<open>severity = high\<close>. Its type is that of the first sub-detector,
  in the order statistical, pattern, contextual, equipment, that flags high severity: the
  type of the statistical verdict (spike or drop) if that one flags high, else pattern if
  the pattern or the contextual sub-detector flags high, else spike.
\<close>

theorem triple_trailing_mean_is_high_anomaly:
  assumes "max windowSize 24 \<le> i" "i < length data"
    and "0 < trailingMean data i"
    and "kwh (data ! i) = 3 * trailingMean data i"
  shows "isAnomaly (fst (detectAnomalies sens b data windowSize) ! (i - max windowSize 24))
    \<and> severity (fst (detectAnomalies sens b data windowSize) ! (i - max windowSize 24)) = High
    \<and> anomalyType (fst (detectAnomalies sens b data windowSize) ! (i - max windowSize 24))
        = (if flaggedHigh (detectStatisticalAnomaly sens (data ! i)
                             (drop (i - windowSize) (take i data)))
           then anomalyType (detectStatisticalAnomaly sens (data ! i)
                               (drop (i - windowSize) (take i data)))
           else if flaggedHigh (detectPatternAnomaly (buildHistoricalBaseline b data) (data ! i))
                   \<or> flaggedHigh (detectContextualAnomaly (data ! i)
                                     (drop (i - windowSize) (take i data)))
           then Some Pattern
           else Some Spike)"
proof -
  have "6 \<le> i" using assms(1) by simp
  from detectAt_triple [OF this assms(2,3,4)] show ?thesis
    by (simp only: detectAnomalies_nth [OF assms(1,2)])
qed

lemma statistical_after_flat_load:
  "flaggedHigh (detectStatisticalAnomaly Medium (reading 3) (replicate 24 (reading 1)))
   \<and> anomalyType (detectStatisticalAnomaly Medium (reading 3) (replicate 24 (reading 1)))
       = Some Spike"
  by (simp add: detectStatisticalAnomaly_def Let_def flaggedHigh_def reading_def
      sum_list_replicate)

theorem triple_trailing_mean_is_high_anomaly_witness:
  "max 24 24 \<le> (24::nat) \<and> 24 < length spikeAfterFlatLoad
   \<and> 0 < trailingMean spikeAfterFlatLoad 24
   \<and> kwh (spikeAfterFlatLoad ! 24) = 3 * trailingMean spikeAfterFlatLoad 24
   \<and> isAnomaly (fst (detectAnomalies Medium AnomalyDetector spikeAfterFlatLoad 24) ! 0)
   \<and> severity (fst (detectAnomalies Medium AnomalyDetector spikeAfterFlatLoad 24) ! 0) = High
   \<and> anomalyType (fst (detectAnomalies Medium AnomalyDetector spikeAfterFlatLoad 24) ! 0)
       = Some Spike"
proof -
  let ?d = spikeAfterFlatLoad
  have tk: "take 24 ?d = replicate 24 (reading 1)" by (simp add: spikeAfterFlatLoad_def)
  have cur: "?d ! 24 = reading 3" by (simp add: spikeAfterFlatLoad_def nth_append)
  have tm: "trailingMean ?d 24 = 1"
    by (simp add: trailingMean_def tk reading_def sum_list_replicate)
  have h1: "max 24 24 \<le> (24::nat)" by simp
  have h2: "24 < length ?d" by (simp add: spikeAfterFlatLoad_def)
  have h3: "0 < trailingMean ?d 24" using tm by simp
  have h4: "kwh (?d ! 24) = 3 * trailingMean ?d 24" using tm cur by (simp add: reading_def)
  have st: "flaggedHigh (detectStatisticalAnomaly Medium (?d ! 24) (drop (24 - 24) (take 24 ?d)))
    \<and> anomalyType (detectStatisticalAnomaly Medium (?d ! 24) (drop (24 - 24) (take 24 ?d)))
        = Some Spike"
    using statistical_after_flat_load by (simp add: tk cur)
  from triple_trailing_mean_is_high_anomaly [OF h1 h2 h3 h4, of Medium AnomalyDetector] st
  have "isAnomaly (fst (detectAnomalies Medium AnomalyDetector ?d 24) ! 0)
    \<and> severity (fst (detectAnomalies Medium AnomalyDetector ?d 24) ! 0) = High
    \<and> anomalyType (fst (detectAnomalies Medium AnomalyDetector ?d 24) ! 0) = Some Spike"
    by simp
  then show ?thesis using h1 h2 h3 h4 by simp
qed

lemma sqrt7: "sqrt 7 < 27 / 10"
proof -
  have "sqrt 7 < sqrt ((27 / 10)\<^sup>2)"
    by (simp only: real_sqrt_less_iff) (simp add: power2_eq_square)
  then show ?thesis by simp
qed

lemma zscore_after_high_load: "18 / 10 < \<bar>(3 - 8) / (sqrt 7 + 1 / 1000)\<bar>"
proof -
  have pos: "0 < sqrt 7 + 1 / 1000" by (simp add: add_pos_pos)
  have "18 / 10 * (sqrt 7 + 1 / 1000) < 5" using sqrt7 by simp
  then have "18 / 10 < 5 / (sqrt 7 + 1 / 1000)" using pos by (simp add: pos_less_divide_eq)
  moreover have "\<bar>(3 - 8) / (sqrt 7 + 1 / 1000)\<bar> = 5 / (sqrt 7 + 1 / 1000)"
    using pos by (simp add: abs_divide)
  ultimately show ?thesis by simp
qed

lemma statistical_after_high_load:
  "flaggedHigh (detectStatisticalAnomaly Medium (reading 3)
      (replicate 42 (reading 9) @ replicate 6 (reading 1)))
   \<and> anomalyType (detectStatisticalAnomaly Medium (reading 3)
      (replicate 42 (reading 9) @ replicate 6 (reading 1))) = Some Drop"
proof -
  let ?w = "replicate 42 (reading 9) @ replicate 6 (reading 1)"
  have v: "map kwh ?w = replicate 42 9 @ replicate 6 1" by (simp add: reading_def)
  have mean: "sum_list (replicate 42 (9::real) @ replicate 6 1) / real (length (replicate 42 (9::real) @ replicate 6 1)) = 8"
    by (simp add: sum_list_replicate)
  have var: "sum_list (map (\<lambda>v. (v - 8)\<^sup>2) (replicate 42 (9::real) @ replicate 6 1))
      / real (length (replicate 42 (9::real) @ replicate 6 1)) = 7"
    by (simp add: sum_list_replicate)
  have ne: "replicate 42 (9::real) @ replicate 6 1 \<noteq> []" by simp
  have k: "kwh (reading 3) = 3" by (simp add: reading_def)
  show ?thesis
    unfolding detectStatisticalAnomaly_def Let_def flaggedHigh_def v mean var k
    using zscore_after_high_load ne by simp
qed

lemma high_load_reported_as_drop:
  "kwh (spikeAfterHighLoad ! 48) = 3 * trailingMean spikeAfterHighLoad 48
   \<and> length (fst (detectAnomalies Medium AnomalyDetector spikeAfterHighLoad 48)) = 1
   \<and> isAnomaly (fst (detectAnomalies Medium AnomalyDetector spikeAfterHighLoad 48) ! 0)
   \<and> severity (fst (detectAnomalies Medium AnomalyDetector spikeAfterHighLoad 48) ! 0) = High
   \<and> anomalyType (fst (detectAnomalies Medium AnomalyDetector spikeAfterHighLoad 48) ! 0)
       = Some Drop"
proof -
  let ?d = spikeAfterHighLoad
  have len: "length ?d = 49" by (simp add: spikeAfterHighLoad_def)
  have tk: "take 48 ?d = replicate 42 (reading 9) @ replicate 6 (reading 1)"
    by (simp add: spikeAfterHighLoad_def)
  have cur: "?d ! 48 = reading 3"
    by (simp add: spikeAfterHighLoad_def nth_append)
  have tm: "trailingMean ?d 48 = 1"
    by (simp add: trailingMean_def tk reading_def sum_list_replicate)
  have h1: "(6::nat) \<le> 48" by simp
  have h2: "48 < length ?d" using len by simp
  have h3: "0 < trailingMean ?d 48" using tm by simp
  have h4: "kwh (?d ! 48) = 3 * trailingMean ?d 48" using tm cur by (simp add: reading_def)
  have st: "flaggedHigh (detectStatisticalAnomaly Medium (?d ! 48) (drop (48 - 48) (take 48 ?d)))
    \<and> anomalyType (detectStatisticalAnomaly Medium (?d ! 48) (drop (48 - 48) (take 48 ?d)))
        = Some Drop"
    using statistical_after_high_load by (simp add: tk cur)
  from detectAt_triple [OF h1 h2 h3 h4, of Medium "buildHistoricalBaseline AnomalyDetector ?d" 48] st
  have at: "isAnomaly (detectAt Medium (buildHistoricalBaseline AnomalyDetector ?d) ?d 48 48)
    \<and> severity (detectAt Medium (buildHistoricalBaseline AnomalyDetector ?d) ?d 48 48) = High
    \<and> anomalyType (detectAt Medium (buildHistoricalBaseline AnomalyDetector ?d) ?d 48 48)
        = Some Drop"
    by simp
  have m: "max (48::nat) 24 \<le> 48" by simp
  from detectAnomalies_nth [OF m h2, of Medium AnomalyDetector]
  have nth: "fst (detectAnomalies Medium AnomalyDetector ?d 48) ! 0
      = detectAt Medium (buildHistoricalBaseline AnomalyDetector ?d) ?d 48 48"
    by simp
  have l: "length (fst (detectAnomalies Medium AnomalyDetector ?d 48)) = 1"
    by (simp add: detectAnomalies_def Let_def len)
  show ?thesis using h4 l at by (simp only: nth)
qed

lemma sort_replicate: "sort (replicate n (x::real)) = replicate n x"
  by (rule sorted_sort_id) (simp add: sorted_replicate)

lemma patterns_replicate_aux:
  "fold (\<lambda>d ps. addPattern (baselineKey d) (kwh d) ps) (replicate n d0) [(baselineKey d0, vs)]
     = [(baselineKey d0, vs @ replicate n (kwh d0))]"
proof (induction n arbitrary: vs)
  case 0
  then show ?case by simp
next
  case (Suc n)
  show ?case using Suc.IH [of "vs @ [kwh d0]"]
    by (simp add: replicate_append_same)
qed

lemma patterns_replicate:
  "patterns (replicate (Suc n) d0) = [(baselineKey d0, replicate (Suc n) (kwh d0))]"
  using patterns_replicate_aux [of n d0 "[kwh d0]"]
  by (simp add: patterns_def replicate_append_same)

lemma idle_not_flagged:
  "kwh (idleHistory ! 24) = 3 * trailingMean idleHistory 24
   \<and> \<not> isAnomaly (fst (detectAnomalies Medium AnomalyDetector idleHistory 24) ! 0)"
proof -
  let ?d = idleHistory
  have tk: "take 24 ?d = replicate 24 (reading 0)" by (simp add: idleHistory_def)
  have cur: "?d ! 24 = reading 0" by (simp add: idleHistory_def)
  have tm: "trailingMean ?d 24 = 0"
    by (simp add: trailingMean_def tk reading_def sum_list_replicate)
  have st: "\<not> isAnomaly (detectStatisticalAnomaly Medium (reading 0) (replicate 24 (reading 0)))"
    by (simp add: detectStatisticalAnomaly_def Let_def reading_def sum_list_replicate)
  have "patterns ?d = [(baselineKey (reading 0), replicate 25 0)]"
    unfolding idleHistory_def using patterns_replicate [of 24 "reading 0"]
    by (simp add: reading_def)
  then have bl: "buildHistoricalBaseline AnomalyDetector ?d (baselineKey (reading 0)) = Some 0"
    by (simp add: buildHistoricalBaseline_def setMedian_def median_def sort_replicate Let_def)
  have pa: "\<not> isAnomaly (detectPatternAnomaly (buildHistoricalBaseline AnomalyDetector ?d) (reading 0))"
    using bl by (simp add: detectPatternAnomaly_def notAnomalous_def)
  have co: "\<not> isAnomaly (detectContextualAnomaly (reading 0) (replicate 24 (reading 0)))"
    by (simp add: detectContextualAnomaly_def Let_def calculateExpectedRange_def reading_def
        sort_replicate notAnomalous_def)
  have eq: "\<not> isAnomaly (detectEquipmentAnomaly (reading 0) (drop 18 (replicate 24 (reading 0))))"
    by (simp add: detectEquipmentAnomaly_def Let_def reading_def sum_list_replicate
        notAnomalous_def)
  have at: "\<not> isAnomaly (detectAt Medium (buildHistoricalBaseline AnomalyDetector ?d) ?d 24 24)"
    using st pa co eq by (simp add: detectAt_def Let_def tk cur)
  have m: "max (24::nat) 24 \<le> 24" by simp
  have h2: "24 < length ?d" by (simp add: idleHistory_def)
  from detectAnomalies_nth [OF m h2, of Medium AnomalyDetector]
  have nth: "fst (detectAnomalies Medium AnomalyDetector ?d 24) ! 0
      = detectAt Medium (buildHistoricalBaseline AnomalyDetector ?d) ?d 24 24"
    by simp
  show ?thesis using tm cur at by (simp add: nth reading_def)
qed

text \<open>
  As first stated the claim fails twice. After a load of 9 kWh, six samples of 1 kWh and
  then 3 kWh (3 times the trailing mean) give a record of high severity whose type is
  drop: the statistical sub-detector flags high as well, comes first, and compares with
  the mean 8 of its window of 48. And in a building that reads 0 kWh throughout, a sample
  of 0 kWh is 3 times the trailing mean and is no anomaly.
\<close>

theorem triple_trailing_mean_counterexample:
  "kwh (spikeAfterHighLoad ! 48) = 3 * trailingMean spikeAfterHighLoad 48
   \<and> anomalyType (fst (detectAnomalies Medium AnomalyDetector spikeAfterHighLoad 48) ! 0)
       = Some Drop
   \<and> kwh (idleHistory ! 24) = 3 * trailingMean idleHistory 24
   \<and> \<not> isAnomaly (fst (detectAnomalies Medium AnomalyDetector idleHistory 24) ! 0)"
  using high_load_reported_as_drop idle_not_flagged by blast

section \<open>Properties of thrown errors\<close>







end
